theory Spec2Isabelle
  imports Main "HOL-Library.Sublist"
begin

section \<open>The world the commands act on\<close>

text \<open>
  Embedding of \<^verbatim>\<open>pgxnclient/commands/install.py\<close>: the commands
  \<^verbatim>\<open>download\<close>, \<^verbatim>\<open>install\<close>, \<^verbatim>\<open>uninstall\<close>,
  \<^verbatim>\<open>check\<close>, \<^verbatim>\<open>load\<close> and \<^verbatim>\<open>unload\<close>.

  The code is Python 2: a \<^verbatim>\<open>str\<close> is a byte string, modelled as \<^typ>\<open>string\<close>.
  The file system is a map from path strings to the contents of the files that exist.
  Whether two different path strings name one and the same file (links, \<^verbatim>\<open>.\<close> and
  \<^verbatim>\<open>..\<close> in a path, the working directory) is not in the map: the only place of this
  module that asks is \<^verbatim>\<open>shutil.copy\<close>, and the answer is a parameter (\<open>samefile\<close>
  below).
\<close>

type_synonym path = string
type_synonym fsys = "path \<rightharpoonup> string"

text \<open>
  The messages are passed through gettext (\<^verbatim>\<open>_("...")\<close>), so their text depends on
  the locale. A message is modelled by its template (one constructor for each call site) and
  its arguments.
\<close>

datatype prompt =
    NoControlFileLoad string
  | NoControlFileUnload string
  | GuessedSqlFile string path
  | ExecuteUninstall string path

datatype level = DEBUG | INFO | ERROR

datatype logmsg =
    CheckingSha1 path
  | BadSha1 path string string
  | CheckingPath path
  | RunningConfigure
  | BuildingExtension
  | InstallingExtension
  | RemovingExtension
  | CheckingExtension
  | AdditionalEnv "(string \<times> string) list"
  | CopyingRegression string
  | PostgreSQLVersion nat nat nat
  | CheckingIfExists path
  | Calling "string list"
  | CheckingSqlFileIn path
  | LoadingExtension string "string option"
  | UnloadingExtension string "string option"
  | NotSQL string string
  | AlreadyLoaded path

datatype message =
    Sha1Missing
  | ConfigureFailed int
  | CommandReturned int "string list"
  | PsqlRunningCommand int
  | PsqlLoadingExtension int
  | CannotParseVersion string
  | CannotFindSqlFile string string

datatype error =
    BadChecksum
  | PgxnClientException message
  | UserAbort
  | IOError path
  | OSError path
  | ShutilError path path
  | TypeError

text \<open>
  What a command does to the outside: the processes it starts, the files it removes or
  copies, the questions it asks the user.
\<close>

datatype stdin_src = NoStdin | FromFile path | FromData string

datatype event =
    Popen "string list" "path option" stdin_src
  | RunMake "string list" path "(string \<times> string) list option" "string option"
  | Unlink path
  | CopyFile path path
  | Confirm prompt

record proc_result =
  new_files :: fsys
  stdout :: string
  returncode :: int

text \<open>
  \<open>loaded\<close> is the attribute \<^verbatim>\<open>_loaded\<close> of the command object: \<open>None\<close> while
  the attribute does not exist (\<^verbatim>\<open>hasattr(self, '_loaded')\<close> is false).
\<close>

record world =
  files :: fsys
  trace :: "event list"
  logs :: "(level \<times> logmsg) list"
  loaded :: "path list option"

datatype spec = SpecDir path | SpecFile path | SpecRemote string

text \<open>
  The collaborators that are not in this module are parameters. A process and the user may
  answer differently every time: both see the events so far.
  \<^item> \<open>sha1_hex\<close>: the hex digest of a byte string (\<^verbatim>\<open>pgxnclient.utils.sha1\<close>);
  \<^item> \<open>run_process\<close>: what a started process does to the files, prints and returns;
  \<^item> \<open>answers\<close>: the user's answer to a prompt;
  \<^item> \<open>pg_config\<close>: \<^verbatim>\<open>call_pg_config\<close>;
  \<^item> \<open>psql_options\<close>, \<open>psql_env\<close>: \<^verbatim>\<open>get_psql_options\<close>, \<^verbatim>\<open>get_psql_env\<close>;
  \<^item> \<open>os_environ\<close>: \<^verbatim>\<open>os.environ\<close>;
  \<^item> \<open>opts_sudo\<close>: \<^verbatim>\<open>self.opts.sudo\<close>;
  \<^item> \<open>get_spec\<close>, \<open>meta_sha1\<close>: \<^verbatim>\<open>get_spec()\<close> and the \<^verbatim>\<open>sha1\<close> entry of
    \<^verbatim>\<open>get_meta(spec)\<close>;
  \<^item> \<open>unpack\<close>: \<^verbatim>\<open>self.unpack(archive, dir)\<close>;
  \<^item> \<open>fetch\<close>: the network download into the target directory, with the name of the file
    it wrote;
  \<^item> \<open>samefile\<close>: \<^verbatim>\<open>os.path.samefile\<close>, whether two paths name the same file in the
    given file system.
\<close>

record ctx =
  sha1_hex :: "string \<Rightarrow> string"
  run_process :: "event list \<Rightarrow> fsys \<Rightarrow> event \<Rightarrow> proc_result"
  answers :: "event list \<Rightarrow> prompt \<Rightarrow> bool"
  pg_config :: "string \<Rightarrow> string"
  psql_options :: "string list"
  psql_env :: "(string \<times> string) list"
  os_environ :: "(string \<times> string) list"
  opts_sudo :: "string option"
  get_spec :: spec
  meta_sha1 :: "string option"
  unpack :: "path \<Rightarrow> path \<Rightarrow> fsys \<Rightarrow> error + (path \<times> fsys)"
  fetch :: "path \<Rightarrow> fsys \<Rightarrow> error + (path \<times> fsys)"
  samefile :: "fsys \<Rightarrow> path \<Rightarrow> path \<Rightarrow> bool"

subsection \<open>Actions: a result or an exception, and the world after it\<close>

type_synonym 'a action = "world \<Rightarrow> (error + 'a) \<times> world"

definition ret :: "'a \<Rightarrow> 'a action" where
  "ret x = (\<lambda>w. (Inr x, w))"

definition raise :: "error \<Rightarrow> 'a action" where
  "raise e = (\<lambda>w. (Inl e, w))"

definition bnd :: "'a action \<Rightarrow> ('a \<Rightarrow> 'b action) \<Rightarrow> 'b action" where
  "bnd m f = (\<lambda>w. case m w of (Inl e, w') \<Rightarrow> (Inl e, w') | (Inr x, w') \<Rightarrow> f x w')"

definition log :: "level \<Rightarrow> logmsg \<Rightarrow> unit action" where
  "log l m = (\<lambda>w. (Inr (), w\<lparr>logs := logs w @ [(l, m)]\<rparr>))"

definition os_path_exists :: "path \<Rightarrow> bool action" where
  "os_path_exists fn = (\<lambda>w. (Inr (files w fn \<noteq> None), w))"

text \<open>\<^verbatim>\<open>open(fn).read()\<close>: the contents, or \<^verbatim>\<open>IOError\<close> when there is no such file.\<close>

definition open_file :: "path \<Rightarrow> string action" where
  "open_file fn = (\<lambda>w. case files w fn of None \<Rightarrow> (Inl (IOError fn), w) | Some d \<Rightarrow> (Inr d, w))"

definition os_unlink :: "path \<Rightarrow> unit action" where
  "os_unlink fn = (\<lambda>w. case files w fn of
       None \<Rightarrow> (Inl (OSError fn), w)
     | Some d \<Rightarrow> (Inr (), w\<lparr>files := (files w)(fn := None), trace := trace w @ [Unlink fn]\<rparr>))"

text \<open>
  \<^verbatim>\<open>self.popen(...)\<close> followed by \<^verbatim>\<open>communicate()\<close>: the process is recorded, changes
  the files, and gives its output and return code.
\<close>

definition popen :: "ctx \<Rightarrow> event \<Rightarrow> (string \<times> int) action" where
  "popen c ev = (\<lambda>w.
     let r = run_process c (trace w) (files w) ev
     in (Inr (stdout r, returncode r), w\<lparr>files := new_files r, trace := trace w @ [ev]\<rparr>))"

section \<open>Download: the checksum\<close>

text \<open>
  The loop of \<^verbatim>\<open>verify_checksum\<close>: \<^verbatim>\<open>f.read(8192)\<close> takes the next 8192 bytes of
  what is left of the file, the empty string ends the loop, \<^verbatim>\<open>sha.update(data)\<close> feeds
  the hash (\<open>fed\<close> is what it has been fed so far).
\<close>

function read_loop :: "string \<Rightarrow> string \<Rightarrow> string" where
  "read_loop fed rest =
     (let data = take 8192 rest
      in if data = [] then fed else read_loop (fed @ data) (drop 8192 rest))"
  by pat_completeness auto
termination
  by (relation "measure (\<lambda>(fed, rest). length rest)") auto

declare read_loop.simps [simp del]

definition verify_checksum :: "ctx \<Rightarrow> path \<Rightarrow> string \<Rightarrow> unit action" where
  "verify_checksum c fn chk =
     bnd (log DEBUG (CheckingSha1 fn)) (\<lambda>_.
     bnd (open_file fn) (\<lambda>content.
       let sha = sha1_hex c (read_loop [] content)
       in if sha \<noteq> chk
          then bnd (os_unlink fn) (\<lambda>_.
               bnd (log ERROR (BadSha1 fn sha chk)) (\<lambda>_.
               raise BadChecksum))
          else ret ()))"

section \<open>Install, uninstall, check\<close>

text \<open>\<^verbatim>\<open>os.path.join(a, b)\<close> of \<^verbatim>\<open>posixpath\<close>.\<close>

definition os_path_join :: "path \<Rightarrow> path \<Rightarrow> path" where
  "os_path_join a b =
     (if b \<noteq> [] \<and> hd b = CHR ''/'' then b
      else if a = [] \<or> last a = CHR ''/'' then a @ b
      else a @ ''/'' @ b)"

text \<open>
  Modelled from the spec: \<^verbatim>\<open>run_make\<close> (of \<^verbatim>\<open>WithMake\<close>, not in this module) runs
  the build tool with the given targets in the directory, elevated when \<open>sudo\<close> is given, and
  waits for it; a non-zero exit code is fatal and carries the tool and the code.
\<close>

definition run_make ::
  "ctx \<Rightarrow> string list \<Rightarrow> path \<Rightarrow> (string \<times> string) list option \<Rightarrow> string option \<Rightarrow> unit action" where
  "run_make c cmd dir env sudo =
     bnd (popen c (RunMake cmd dir env sudo)) (\<lambda>(out, rc).
       if rc \<noteq> 0 then raise (PgxnClientException (CommandReturned rc (''make'' # cmd)))
       else ret ())"

definition via_files :: "(fsys \<Rightarrow> error + ('a \<times> fsys)) \<Rightarrow> 'a action" where
  "via_files f = (\<lambda>w. case f (files w) of
       Inl e \<Rightarrow> (Inl e, w)
     | Inr (x, fs) \<Rightarrow> (Inr x, w\<lparr>files := fs\<rparr>))"

text \<open>\<^verbatim>\<open>Download.run\<close>, with \<^verbatim>\<open>self.opts.target\<close> as \<open>target\<close>.\<close>

definition Download_run :: "ctx \<Rightarrow> path \<Rightarrow> path action" where
  "Download_run c target =
     (case meta_sha1 c of
        None \<Rightarrow> raise (PgxnClientException Sha1Missing)
      | Some chk \<Rightarrow>
          bnd (via_files (fetch c target)) (\<lambda>fn.
          bnd (verify_checksum c fn chk) (\<lambda>_.
          ret fn)))"

definition maybe_run_configure :: "ctx \<Rightarrow> path \<Rightarrow> unit action" where
  "maybe_run_configure c dir =
     (let fn = os_path_join dir ''configure''
      in bnd (log DEBUG (CheckingPath fn)) (\<lambda>_.
         bnd (os_path_exists fn) (\<lambda>ex.
           if \<not> ex then ret ()
           else bnd (log INFO RunningConfigure) (\<lambda>_.
                bnd (popen c (Popen [fn] (Some dir) NoStdin)) (\<lambda>(out, rc).
                  if rc \<noteq> 0 then raise (PgxnClientException (ConfigureFailed rc))
                  else ret ())))))"

definition Install_inun :: "ctx \<Rightarrow> path \<Rightarrow> unit action" where
  "Install_inun c pdir =
     bnd (log INFO BuildingExtension) (\<lambda>_.
     bnd (run_make c [''all''] pdir None None) (\<lambda>_.
     bnd (log INFO InstallingExtension) (\<lambda>_.
     run_make c [''install''] pdir None (opts_sudo c))))"

definition Uninstall_inun :: "ctx \<Rightarrow> path \<Rightarrow> unit action" where
  "Uninstall_inun c pdir =
     bnd (log INFO RemovingExtension) (\<lambda>_.
     run_make c [''uninstall''] pdir None (opts_sudo c))"

text \<open>
  \<^verbatim>\<open>shutil.copy(src, dst)\<close> for a destination that is not a directory: \<^verbatim>\<open>IOError\<close>
  when the source does not exist, \<^verbatim>\<open>shutil.Error\<close> when source and destination are the
  same file. They are the same file when the two paths are the same string (the source
  exists), and when \<^verbatim>\<open>os.path.samefile\<close> says so of two different strings.
\<close>

definition shutil_copy :: "ctx \<Rightarrow> path \<Rightarrow> path \<Rightarrow> unit action" where
  "shutil_copy c src dst = (\<lambda>w. case files w src of
       None \<Rightarrow> (Inl (IOError src), w)
     | Some d \<Rightarrow>
         if src = dst \<or> samefile c (files w) src dst then (Inl (ShutilError src dst), w)
         else (Inr (), w\<lparr>files := (files w)(dst \<mapsto> d), trace := trace w @ [CopyFile src dst]\<rparr>))"

fun foreach :: "'a list \<Rightarrow> ('a \<Rightarrow> unit action) \<Rightarrow> unit action" where
  "foreach [] f = ret ()"
| "foreach (x # xs) f = bnd (f x) (\<lambda>_. foreach xs f)"

text \<open>The body of the loop in the \<^verbatim>\<open>except\<close> clause of \<^verbatim>\<open>Check._inun\<close>.\<close>

definition copy_regression :: "ctx \<Rightarrow> path \<Rightarrow> string \<Rightarrow> unit action" where
  "copy_regression c pdir ext =
     (let fn = os_path_join pdir (''regression.'' @ ext)
      in bnd (os_path_exists fn) (\<lambda>ex.
           if ex then bnd (log INFO (CopyingRegression ext)) (\<lambda>_.
                      shutil_copy c fn (''./regression.'' @ ext))
           else ret ()))"

text \<open>
  \<^verbatim>\<open>try: ... except PgxnClientException: ...\<close>. The handler gets the exception, for its
  bare \<^verbatim>\<open>raise\<close>.
\<close>

definition except_PgxnClientException ::
  "'a action \<Rightarrow> (error \<Rightarrow> 'a action) \<Rightarrow> 'a action" where
  "except_PgxnClientException m h = (\<lambda>w. case m w of
       (Inl (PgxnClientException msg), w') \<Rightarrow> h (PgxnClientException msg) w'
     | r \<Rightarrow> r)"

definition Check_inun :: "ctx \<Rightarrow> path \<Rightarrow> unit action" where
  "Check_inun c pdir =
     bnd (log INFO CheckingExtension) (\<lambda>_.
     (let upenv = psql_env c
      in bnd (log DEBUG (AdditionalEnv upenv)) (\<lambda>_.
         (let env = upenv @ os_environ c;
              cmd = [''installcheck''] @
                (case map_of upenv ''PGDATABASE'' of
                   None \<Rightarrow> []
                 | Some _ \<Rightarrow>
                     (case map_of env ''PGDATABASE'' of
                        None \<Rightarrow> []
                      | Some v \<Rightarrow> [''CONTRIB_TESTDB='' @ v]))
          in except_PgxnClientException
               (run_make c cmd pdir (Some env) None)
               (\<lambda>e. bnd (foreach [''out'', ''diffs''] (copy_regression c pdir)) (\<lambda>_.
                     raise e))))))"

datatype command = Install | Uninstall | Check

definition inun :: "ctx \<Rightarrow> command \<Rightarrow> path \<Rightarrow> unit action" where
  "inun c cmd pdir =
     (case cmd of
        Install \<Rightarrow> Install_inun c pdir
      | Uninstall \<Rightarrow> Uninstall_inun c pdir
      | Check \<Rightarrow> Check_inun c pdir)"

text \<open>The first half of \<^verbatim>\<open>InstallUninstall._run\<close>: the source directory.\<close>

definition acquire :: "ctx \<Rightarrow> path \<Rightarrow> path action" where
  "acquire c dir =
     (case get_spec c of
        SpecDir dirname \<Rightarrow> ret dirname
      | SpecFile filename \<Rightarrow> via_files (unpack c filename dir)
      | SpecRemote name \<Rightarrow>
          bnd (Download_run c dir) (\<lambda>fn.
          via_files (unpack c fn dir)))"

definition InstallUninstall_run :: "ctx \<Rightarrow> command \<Rightarrow> path \<Rightarrow> unit action" where
  "InstallUninstall_run c cmd dir =
     bnd (acquire c dir) (\<lambda>pdir.
     bnd (maybe_run_configure c pdir) (\<lambda>_.
     inun c cmd pdir))"

section \<open>Load and unload\<close>

subsection \<open>The server version\<close>

text \<open>
  \<^verbatim>\<open>re.match(r'\S+\s+(\d+)\.(\d+)(?:\.(\d+))?', data)\<close> on a byte string: \<^verbatim>\<open>\s\<close> is one
  of space, tab, newline, carriage return, form feed and vertical tab, \<^verbatim>\<open>\d\<close> a digit
  from 0 to 9. Every repetition is greedy and is followed by something it cannot match
  itself, so it takes the longest run there is.
\<close>

definition is_space :: "char \<Rightarrow> bool" where
  "is_space ch = (ch \<in> {CHR '' '', CHR 0x09, CHR 0x0A, CHR 0x0B, CHR 0x0C, CHR 0x0D})"

definition is_digit :: "char \<Rightarrow> bool" where
  "is_digit ch = (ch \<in> set ''0123456789'')"

text \<open>\<^verbatim>\<open>int(s)\<close> of a string of digits.\<close>

definition int_of_digits :: "string \<Rightarrow> nat" where
  "int_of_digits s = foldl (\<lambda>n ch. 10 * n + (of_char ch - 48)) 0 s"

definition parse_pg_version :: "string \<Rightarrow> error + (nat \<times> nat \<times> nat)" where
  "parse_pg_version data =
     (let word = takeWhile (\<lambda>ch. \<not> is_space ch) data;
          r1 = dropWhile (\<lambda>ch. \<not> is_space ch) data;
          blank = takeWhile is_space r1;
          r2 = dropWhile is_space r1;
          major = takeWhile is_digit r2;
          r3 = dropWhile is_digit r2;
          minor = takeWhile is_digit (tl r3);
          r4 = dropWhile is_digit (tl r3);
          patch = takeWhile is_digit (tl r4)
      in if word = [] \<or> blank = [] \<or> major = [] \<or> r3 = [] \<or> hd r3 \<noteq> CHR ''.'' \<or> minor = []
         then Inl (PgxnClientException (CannotParseVersion data))
         else Inr (int_of_digits major, int_of_digits minor,
                   if r4 \<noteq> [] \<and> hd r4 = CHR ''.'' \<and> patch \<noteq> [] then int_of_digits patch else 0))"

text \<open>The comparison of tuples \<^verbatim>\<open>pgver >= (9,1,0)\<close>: lexicographic.\<close>

fun tuple_ge :: "nat \<times> nat \<times> nat \<Rightarrow> nat \<times> nat \<times> nat \<Rightarrow> bool" where
  "tuple_ge (a, b, d) (x, y, z) = (a > x \<or> (a = x \<and> (b > y \<or> (b = y \<and> d \<ge> z))))"

definition find_psql :: "ctx \<Rightarrow> string" where
  "find_psql c = pg_config c ''bindir'' @ ''/psql''"

definition call_psql :: "ctx \<Rightarrow> string option \<Rightarrow> string action" where
  "call_psql c command =
     (let cmdline = [find_psql c] @ psql_options c @
            (case command of None \<Rightarrow> [] | Some cmd \<Rightarrow> [''-tA'', ''-c'', cmd])
      in bnd (log DEBUG (Calling cmdline)) (\<lambda>_.
         bnd (popen c (Popen cmdline None NoStdin)) (\<lambda>(out, rc).
           if rc \<noteq> 0 then raise (PgxnClientException (PsqlRunningCommand rc))
           else ret out)))"

definition get_pg_version :: "ctx \<Rightarrow> (nat \<times> nat \<times> nat) action" where
  "get_pg_version c =
     bnd (call_psql c (Some ''SELECT version();'')) (\<lambda>data.
       case parse_pg_version data of
         Inl e \<Rightarrow> raise e
       | Inr (a, b, d) \<Rightarrow>
           bnd (log DEBUG (PostgreSQLVersion a b d)) (\<lambda>_.
           ret (a, b, d)))"

subsection \<open>Control files, SQL files\<close>

definition control_file :: "ctx \<Rightarrow> string \<Rightarrow> path" where
  "control_file c name =
     os_path_join (os_path_join (pg_config c ''sharedir'') ''extension'') (name @ ''.control'')"

definition is_extension :: "ctx \<Rightarrow> string \<Rightarrow> bool action" where
  "is_extension c name =
     (let fn = control_file c name
      in bnd (log DEBUG (CheckingIfExists fn)) (\<lambda>_.
         os_path_exists fn))"

text \<open>
  \<^verbatim>\<open>load_sql(filename=None, data=None)\<close>. \<^verbatim>\<open>not data\<close> holds for \<^verbatim>\<open>None\<close> and for
  the empty string; \<^verbatim>\<open>open(None)\<close> is a \<^verbatim>\<open>TypeError\<close>.
\<close>

definition falsy :: "string option \<Rightarrow> bool" where
  "falsy s = (case s of None \<Rightarrow> True | Some t \<Rightarrow> t = [])"

definition load_sql :: "ctx \<Rightarrow> path option \<Rightarrow> string option \<Rightarrow> unit action" where
  "load_sql c filename data =
     (let cmdline = [find_psql c] @ psql_options c
      in bnd (if falsy data
              then (case filename of
                      None \<Rightarrow> raise TypeError
                    | Some fn \<Rightarrow>
                        bnd (open_file fn) (\<lambda>_.
                        popen c (Popen cmdline None (FromFile fn))))
              else (case data of
                      None \<Rightarrow> raise TypeError
                    | Some d \<Rightarrow> popen c (Popen cmdline None (FromData d))))
           (\<lambda>(out, rc).
              if rc \<noteq> 0 then raise (PgxnClientException (PsqlLoadingExtension rc))
              else ret ()))"

text \<open>\<^verbatim>\<open>os.path.basename\<close>: what follows the last slash.\<close>

definition basename :: "path \<Rightarrow> string" where
  "basename p = rev (takeWhile (\<lambda>ch. ch \<noteq> CHR ''/'') (rev p))"

text \<open>\<^verbatim>\<open>s.rsplit('.', 1)[0]\<close>: what precedes the last dot, all of \<open>s\<close> when it has none.\<close>

definition rsplit_dot_first :: "string \<Rightarrow> string" where
  "rsplit_dot_first s =
     (if CHR ''.'' \<in> set s then rev (tl (dropWhile (\<lambda>ch. ch \<noteq> CHR ''.'') (rev s))) else s)"

definition endswith :: "string \<Rightarrow> string \<Rightarrow> bool" where
  "endswith s suf = (length suf \<le> length s \<and> drop (length s - length suf) s = suf)"

text \<open>The list \<^verbatim>\<open>tries\<close> of \<^verbatim>\<open>find_sql_file\<close>, for the flattened file name.\<close>

definition sql_tries :: "string \<Rightarrow> string \<Rightarrow> string list" where
  "sql_tries name sqlfile =
     [name @ ''/'' @ sqlfile,
      rsplit_dot_first sqlfile @ ''/'' @ sqlfile,
      ''contrib/'' @ sqlfile]"

text \<open>
  The \<^verbatim>\<open>for ... else\<close> loop of \<^verbatim>\<open>find_sql_file\<close> over what is left of \<^verbatim>\<open>tries\<close>,
  with the set \<^verbatim>\<open>tried\<close>.
\<close>

fun find_loop ::
  "string \<Rightarrow> string \<Rightarrow> string \<Rightarrow> string list \<Rightarrow> string set \<Rightarrow> path action" where
  "find_loop sharedir name sqlfile [] tried =
     raise (PgxnClientException (CannotFindSqlFile name sqlfile))"
| "find_loop sharedir name sqlfile (fn # fns) tried =
     (if fn \<in> tried then find_loop sharedir name sqlfile fns tried
      else (let full = sharedir @ ''/'' @ fn
            in bnd (log DEBUG (CheckingSqlFileIn full)) (\<lambda>_.
               bnd (os_path_exists full) (\<lambda>ex.
                 if ex then ret full
                 else find_loop sharedir name sqlfile fns (insert fn tried)))))"

definition find_sql_file :: "ctx \<Rightarrow> string \<Rightarrow> string \<Rightarrow> path action" where
  "find_sql_file c name sqlfile0 =
     (let sqlfile = basename sqlfile0;
          sharedir = pg_config c ''sharedir''
      in find_loop sharedir name sqlfile (sql_tries name sqlfile) {})"

definition register_loaded :: "path \<Rightarrow> unit action" where
  "register_loaded fn = (\<lambda>w.
     (Inr (), w\<lparr>loaded := Some ((case loaded w of None \<Rightarrow> [] | Some l \<Rightarrow> l) @ [fn])\<rparr>))"

definition is_loaded :: "path \<Rightarrow> world \<Rightarrow> bool" where
  "is_loaded fn w = (case loaded w of None \<Rightarrow> False | Some l \<Rightarrow> fn \<in> set l)"

text \<open>
  Modelled from the spec: \<^verbatim>\<open>confirm\<close> (of \<^verbatim>\<open>Command\<close>, not in this module) asks the
  user; when the user declines, the activation is aborted with a user-cancellation outcome,
  here the exception \<open>UserAbort\<close>.
\<close>

definition confirm :: "ctx \<Rightarrow> prompt \<Rightarrow> unit action" where
  "confirm c p = (\<lambda>w.
     (if answers c (trace w) p then Inr () else Inl UserAbort,
      w\<lparr>trace := trace w @ [Confirm p]\<rparr>))"

text \<open>
  Modelled from the spec: \<^verbatim>\<open>Label(name)\<close> (of the package, not in this module) is the
  name as it is written into \<^verbatim>\<open>CREATE EXTENSION <name>;\<close> and \<^verbatim>\<open>DROP EXTENSION <name>;\<close>.
\<close>

definition Label :: "string \<Rightarrow> string" where
  "Label name = name"

text \<open>
  \<^verbatim>\<open>sqlfile and not sqlfile.endswith('.sql')\<close>, the test that opens both
  \<^verbatim>\<open>load_ext\<close> methods: the object has a file and it is not an SQL file.
\<close>

definition not_sql :: "string option \<Rightarrow> bool" where
  "not_sql sqlfile = (case sqlfile of None \<Rightarrow> False | Some s \<Rightarrow> s \<noteq> [] \<and> \<not> endswith s ''.sql'')"

definition text_of :: "string option \<Rightarrow> string" where
  "text_of sqlfile = (case sqlfile of None \<Rightarrow> [] | Some s \<Rightarrow> s)"

subsection \<open>Load\<close>

definition create_extension :: "ctx \<Rightarrow> string \<Rightarrow> unit action" where
  "create_extension c name =
     load_sql c None (Some (''CREATE EXTENSION '' @ Label name @ '';''))"

text \<open>
  \<^verbatim>\<open>Load.load_ext\<close> in three parts: the lines from \<^verbatim>\<open>confirm = False\<close> to the second prompt
  find the file (\<open>Load_find\<close>), the last lines load it once (\<open>Load_once\<close>), and
  \<open>Load_load_ext\<close> is the method. The two ways that reach \<^verbatim>\<open>confirm = False\<close> both
  continue with \<open>Load_sql_file\<close>.
\<close>

definition Load_find :: "ctx \<Rightarrow> string \<Rightarrow> string option \<Rightarrow> path action" where
  "Load_find c name sqlfile =
     (let guessed = falsy sqlfile;
          sqlfile' = (case sqlfile of None \<Rightarrow> name @ ''.sql''
                      | Some s \<Rightarrow> if s = [] then name @ ''.sql'' else s)
      in bnd (find_sql_file c name sqlfile') (\<lambda>fn.
         bnd (if guessed then confirm c (GuessedSqlFile name fn) else ret ()) (\<lambda>_.
         ret fn)))"

definition Load_once :: "ctx \<Rightarrow> path \<Rightarrow> unit action" where
  "Load_once c fn = (\<lambda>w.
     if is_loaded fn w then log INFO (AlreadyLoaded fn) w
     else bnd (load_sql c (Some fn) None) (\<lambda>_. register_loaded fn) w)"

definition Load_sql_file :: "ctx \<Rightarrow> string \<Rightarrow> string option \<Rightarrow> unit action" where
  "Load_sql_file c name sqlfile = bnd (Load_find c name sqlfile) (Load_once c)"

definition Load_load_ext :: "ctx \<Rightarrow> string \<Rightarrow> string option \<Rightarrow> unit action" where
  "Load_load_ext c name sqlfile =
     bnd (log DEBUG (LoadingExtension name sqlfile)) (\<lambda>_.
       if not_sql sqlfile
       then log INFO (NotSQL (text_of sqlfile) name)
       else bnd (get_pg_version c) (\<lambda>pgver.
              if tuple_ge pgver (9, 1, 0)
              then bnd (is_extension c name) (\<lambda>ext.
                     if ext then create_extension c name
                     else bnd (confirm c (NoControlFileLoad name)) (\<lambda>_.
                          Load_sql_file c name sqlfile))
              else Load_sql_file c name sqlfile))"

text \<open>
  \<^verbatim>\<open>dist['provides']\<close>: the names in the order of the mapping, each with its data (a
  dictionary, of which \<^verbatim>\<open>data.get('file')\<close> is read).
\<close>

type_synonym provides = "(string \<times> (string \<times> string) list) list"

definition Load_run :: "ctx \<Rightarrow> provides \<Rightarrow> unit action" where
  "Load_run c prov =
     foreach prov (\<lambda>(name, data). Load_load_ext c name (map_of data ''file''))"

subsection \<open>Unload\<close>

definition drop_extension :: "ctx \<Rightarrow> string \<Rightarrow> unit action" where
  "drop_extension c name =
     load_sql c None (Some (''DROP EXTENSION '' @ Label name @ '';''))"

text \<open>
  The lines of \<^verbatim>\<open>Unload.load_ext\<close> from \<^verbatim>\<open>if not sqlfile\<close> on: \<open>Unload_name\<close> is the
  file name that is looked for, \<open>Unload_sql_file\<close> finds and executes it.
\<close>

definition Unload_name :: "string \<Rightarrow> string option \<Rightarrow> string" where
  "Unload_name name sqlfile =
     ''uninstall_'' @ (case sqlfile of None \<Rightarrow> name @ ''.sql''
                       | Some s \<Rightarrow> if s = [] then name @ ''.sql'' else s)"

definition Unload_sql_file :: "ctx \<Rightarrow> string \<Rightarrow> string option \<Rightarrow> unit action" where
  "Unload_sql_file c name sqlfile =
     bnd (find_sql_file c name (Unload_name name sqlfile)) (\<lambda>fn.
     bnd (confirm c (ExecuteUninstall name fn)) (\<lambda>_.
     load_sql c (Some fn) None))"

definition Unload_load_ext :: "ctx \<Rightarrow> string \<Rightarrow> string option \<Rightarrow> unit action" where
  "Unload_load_ext c name sqlfile =
     bnd (log DEBUG (UnloadingExtension name sqlfile)) (\<lambda>_.
       if not_sql sqlfile
       then log INFO (NotSQL (text_of sqlfile) name)
       else bnd (get_pg_version c) (\<lambda>pgver.
              if tuple_ge pgver (9, 1, 0)
              then bnd (is_extension c name) (\<lambda>ext.
                     if ext then drop_extension c name
                     else bnd (confirm c (NoControlFileUnload name)) (\<lambda>_.
                          Unload_sql_file c name sqlfile))
              else Unload_sql_file c name sqlfile))"

definition Unload_run :: "ctx \<Rightarrow> provides \<Rightarrow> unit action" where
  "Unload_run c prov =
     foreach (rev prov) (\<lambda>(name, data). Unload_load_ext c name (map_of data ''file''))"

section \<open>What a run shows\<close>

text \<open>
  The activations a run has begun, in order: the first statement of either \<^verbatim>\<open>load_ext\<close>
  writes the name and the file it was called with to the log, \<^verbatim>\<open>Load.load_ext\<close> as
  ``loading extension'' and \<^verbatim>\<open>Unload.load_ext\<close> as ``unloading extension'', and nothing
  else writes such a line.
\<close>

datatype direction = Loading | Unloading

fun activation :: "level \<times> logmsg \<Rightarrow> (direction \<times> string \<times> string option) option" where
  "activation (l, LoadingExtension n f) = Some (Loading, n, f)"
| "activation (l, UnloadingExtension n f) = Some (Unloading, n, f)"
| "activation (l, m) = None"

definition activations :: "world \<Rightarrow> (direction \<times> string \<times> string option) list" where
  "activations w = List.map_filter activation (logs w)"


text \<open>
  An event that feeds a command to the database client (\<^verbatim>\<open>CREATE EXTENSION\<close> and
  \<^verbatim>\<open>DROP EXTENSION\<close> are sent this way), and an event that executes the SQL file \<open>fn\<close>.
\<close>

fun is_native :: "event \<Rightarrow> bool" where
  "is_native (Popen argv cwd (FromData d)) = True"
| "is_native ev = False"

fun executes :: "path \<Rightarrow> event \<Rightarrow> bool" where
  "executes fn (Popen argv cwd (FromFile f)) = (f = fn)"
| "executes fn ev = False"


text \<open>
  The question \<^verbatim>\<open>get_pg_version\<close> puts to the server, and what the server answers in the
  world \<open>w\<close>.
\<close>

definition version_query :: "ctx \<Rightarrow> event" where
  "version_query c =
     Popen ([find_psql c] @ psql_options c @ [''-tA'', ''-c'', ''SELECT version();'']) None NoStdin"

definition server_says :: "ctx \<Rightarrow> world \<Rightarrow> proc_result" where
  "server_says c w = run_process c (trace w) (files w) (version_query c)"

text \<open>The database client fed with a command, and fed with the file \<open>fn\<close>.\<close>

definition psql_data :: "ctx \<Rightarrow> string \<Rightarrow> event" where
  "psql_data c d = Popen ([find_psql c] @ psql_options c) None (FromData d)"

definition psql_file :: "ctx \<Rightarrow> path \<Rightarrow> event" where
  "psql_file c fn = Popen ([find_psql c] @ psql_options c) None (FromFile fn)"

text \<open>
  \<open>extends PL PE w w'\<close>: from \<open>w\<close> to \<open>w'\<close> the log has grown by lines that satisfy \<open>PL\<close>,
  the trace by events that satisfy \<open>PE\<close>, and the loaded files are still loaded.
  \<open>within I PL PE m\<close>: the action \<open>m\<close> does no more than that, from every world that
  satisfies \<open>I\<close>.
\<close>

definition extends ::
  "(level \<times> logmsg \<Rightarrow> bool) \<Rightarrow> (event \<Rightarrow> bool) \<Rightarrow> world \<Rightarrow> world \<Rightarrow> bool" where
  "extends PL PE w w' =
     (\<exists>ls evs. logs w' = logs w @ ls \<and> list_all PL ls \<and>
                trace w' = trace w @ evs \<and> list_all PE evs \<and>
                (\<forall>fn. is_loaded fn w \<longrightarrow> is_loaded fn w'))"

definition within ::
  "(world \<Rightarrow> bool) \<Rightarrow> (level \<times> logmsg \<Rightarrow> bool) \<Rightarrow> (event \<Rightarrow> bool) \<Rightarrow> 'a action \<Rightarrow> bool" where
  "within I PL PE m = (\<forall>w. I w \<longrightarrow> extends PL PE w (snd (m w)))"

text \<open>The conditions that \<open>I\<close> may be: none, or that the file \<open>fn\<close> is loaded.\<close>

definition persistent :: "(world \<Rightarrow> bool) \<Rightarrow> bool" where
  "persistent I = (\<forall>PL PE w w'. I w \<longrightarrow> extends PL PE w w' \<longrightarrow> I w')"

text \<open>
  A sequence of processes, each started only when the one before it has returned 0: the
  events it adds to a trace.
\<close>

fun gated :: "ctx \<Rightarrow> event list \<Rightarrow> event list \<Rightarrow> fsys \<Rightarrow> event list" where
  "gated c [] tr fs = tr"
| "gated c (ev # evs) tr fs =
     (if returncode (run_process c tr fs ev) = 0
      then gated c evs (tr @ [ev]) (new_files (run_process c tr fs ev))
      else tr @ [ev])"

text \<open>The configure script of the source directory \<open>pdir\<close> as a process, and the step it is: there when the script exists.\<close>

definition configure_event :: "path \<Rightarrow> event" where
  "configure_event pdir = Popen [os_path_join pdir ''configure''] (Some pdir) NoStdin"

definition configure_step :: "path \<Rightarrow> world \<Rightarrow> event list" where
  "configure_step pdir w =
     (if files w (os_path_join pdir ''configure'') \<noteq> None then [configure_event pdir] else [])"

text \<open>The events that run the build tool.\<close>

definition is_make :: "event \<Rightarrow> bool" where
  "is_make ev = (case ev of RunMake cmd dir env sudo \<Rightarrow> True | _ \<Rightarrow> False)"

text \<open>
  The world after \<^verbatim>\<open>get_pg_version\<close> has called the database client from \<open>w\<close>: the
  call is logged, the process has run.
\<close>

definition asked :: "ctx \<Rightarrow> world \<Rightarrow> world" where
  "asked c w = w\<lparr>logs := logs w @ [(DEBUG, Calling ([find_psql c] @ psql_options c @ [''-tA'', ''-c'', ''SELECT version();'']))],
       files := new_files (server_says c w), trace := trace w @ [version_query c]\<rparr>"

text \<open>
  The world after the first line \<open>entry\<close> of a \<^verbatim>\<open>load_ext\<close> and a
  \<^verbatim>\<open>get_pg_version\<close> that has returned the version \<open>v\<close>.
\<close>

definition versioned :: "ctx \<Rightarrow> level \<times> logmsg \<Rightarrow> nat \<times> nat \<times> nat \<Rightarrow> world \<Rightarrow> world" where
  "versioned c entry v w =
     (case v of (a, b, d) \<Rightarrow>
        w\<lparr>files := new_files (server_says c w),
          trace := trace w @ [version_query c],
          logs := logs w @ [entry,
             (DEBUG, Calling ([find_psql c] @ psql_options c @ [''-tA'', ''-c'', ''SELECT version();''])),
             (DEBUG, PostgreSQLVersion a b d)]\<rparr>)"

text \<open>
  \<open>declined_at c w tr p w'\<close>: on the way from \<open>w\<close> to \<open>w'\<close> the user was asked \<open>p\<close>, after
  the events \<open>tr\<close>, and declined. \<open>halts_on_decline c m\<close>: the action \<open>m\<close> only adds to the
  trace, and a prompt that the user declines is the last thing it does: it ends there with
  \<open>UserAbort\<close>.
\<close>

definition declined_at :: "ctx \<Rightarrow> world \<Rightarrow> event list \<Rightarrow> prompt \<Rightarrow> world \<Rightarrow> bool" where
  "declined_at c w tr p w' =
     (prefix (tr @ [Confirm p]) (trace w') \<and> length (trace w) \<le> length tr \<and> \<not> answers c tr p)"

definition halts_on_decline :: "ctx \<Rightarrow> 'a action \<Rightarrow> bool" where
  "halts_on_decline c m =
     (\<forall>w. prefix (trace w) (trace (snd (m w))) \<and>
        (\<forall>tr p. declined_at c w tr p (snd (m w)) \<longrightarrow>
           trace (snd (m w)) = tr @ [Confirm p] \<and> fst (m w) = Inl UserAbort))"

section \<open>A concrete setting\<close>

text \<open>
  A context and worlds to run the commands on: the hash is a stand-in, every process leaves
  the files alone, prints the version banner of a 9.2.0 server and returns 0, the user
  accepts every prompt, and no two different path strings name the same file.
\<close>

definition demo_ctx :: ctx where
  "demo_ctx = \<lparr>sha1_hex = (\<lambda>s. ''sha1:'' @ s),
     run_process = (\<lambda>tr fs ev.
       \<lparr>new_files = fs, stdout = ''PostgreSQL 9.2.0 on x86_64'', returncode = 0\<rparr>),
     answers = (\<lambda>tr p. True),
     pg_config = (\<lambda>k. ''/pg/'' @ k),
     psql_options = [], psql_env = [], os_environ = [], opts_sudo = None,
     get_spec = SpecDir ''ext'', meta_sha1 = None,
     unpack = (\<lambda>a d fs. Inr (d, fs)), fetch = (\<lambda>t fs. Inr (t, fs)),
     samefile = (\<lambda>fs a b. False)\<rparr>"

definition demo_world :: "(path \<times> string) list \<Rightarrow> world" where
  "demo_world fs = \<lparr>files = map_of fs, trace = [], logs = [], loaded = None\<rparr>"


text \<open>The same with a user who declines every prompt, and a \<^verbatim>\<open>provides\<close> of two objects.\<close>

definition declining_ctx :: ctx where
  "declining_ctx = demo_ctx\<lparr>answers := (\<lambda>tr p. False)\<rparr>"

definition foo_bar :: provides where
  "foo_bar = [(''foo'', []), (''bar'', [(''file'', ''bar.sql'')])]"

text \<open>
  A world with SQL files in the shared directory: \<^verbatim>\<open>foo.sql\<close> twice, under \<^verbatim>\<open>foo\<close> and
  under \<^verbatim>\<open>contrib\<close>.
\<close>

definition sql_world :: world where
  "sql_world = demo_world [(''/pg/sharedir/foo/foo.sql'', ''-- foo''),
                           (''/pg/sharedir/contrib/foo.sql'', ''-- old foo''),
                           (''/pg/sharedir/contrib/bar.sql'', ''-- bar''),
                           (''/pg/sharedir/contrib/uninstall_foo.sql'', ''-- no foo''),
                           (''/pg/sharedir/contrib/foo.sql'', ''-- old foo'')]"

text \<open>
  A context in which every process returns 1, the same with the current directory as the
  source directory, and worlds with a configure script and with the output of a regression
  test.
\<close>

definition failing_ctx :: ctx where
  "failing_ctx = demo_ctx\<lparr>run_process := (\<lambda>tr fs ev.
     \<lparr>new_files = fs, stdout = [], returncode = 1\<rparr>)\<rparr>"

definition here_ctx :: ctx where
  "here_ctx = failing_ctx\<lparr>get_spec := SpecDir ''.''\<rparr>"

definition configure_world :: world where
  "configure_world = demo_world [(''ext/configure'', ''#!/bin/sh''),
                                 (''ext/regression.out'', ''failed''),
                                 (''ext/regression.diffs'', ''1c1'')]"

definition here_world :: world where
  "here_world = demo_world [(''./regression.out'', ''failed'')]"

definition passing_configure_world :: world where
  "passing_configure_world = demo_world [(''ext/configure'', ''#!/bin/sh'')]"

text \<open>A source directory that is not the current one, with the output of a regression test.\<close>

definition regression_world :: world where
  "regression_world = demo_world [(''ext/regression.out'', ''failed''),
                                  (''ext/regression.diffs'', ''1c1'')]"

text \<open>
  A server of version 8.4.1, and a world where \<open>foo\<close> has a control file and SQL files.
\<close>

definition old_ctx :: ctx where
  "old_ctx = demo_ctx\<lparr>run_process := (\<lambda>tr fs ev.
     \<lparr>new_files = fs, stdout = ''PostgreSQL 8.4.1 on x86_64'', returncode = 0\<rparr>)\<rparr>"

definition both_world :: world where
  "both_world = demo_world [(''/pg/sharedir/extension/foo.control'', ''# foo''),
                            (''/pg/sharedir/foo/foo.sql'', ''-- foo''),
                            (''/pg/sharedir/foo/uninstall_foo.sql'', ''-- no foo'')]"


section \<open>Properties\<close>

lemma read_loop_all: "read_loop fed rest = fed @ rest"
proof (induction fed rest rule: read_loop.induct)
  case (1 fed rest)
  show ?case
  proof (cases "take 8192 rest = []")
    case True
    then have "rest = []" by simp
    with True show ?thesis by (simp add: read_loop.simps)
  next
    case False
    then have "read_loop fed rest = read_loop (fed @ take 8192 rest) (drop 8192 rest)"
      by (subst read_loop.simps) (simp add: Let_def)
    also have "\<dots> = (fed @ take 8192 rest) @ drop 8192 rest"
      using False by (intro "1.IH") simp_all
    finally show ?thesis by simp
  qed
qed

lemma bnd_Inr: "m w = (Inr x, w') \<Longrightarrow> bnd m f w = f x w'"
  by (simp add: bnd_def)

lemma bnd_Inl: "m w = (Inl e, w') \<Longrightarrow> bnd m f w = (Inl e, w')"
  by (simp add: bnd_def)

subsection \<open>The checksum\<close>

text \<open>
  C1. When the file at \<open>fn\<close> exists and its digest equals the expected one,
  \<^verbatim>\<open>verify_checksum\<close> succeeds and changes nothing but the log (one debug line): the
  files and the trace of outside effects are as before, so the file is still there. When
  the digest differs, it removes the file at \<open>fn\<close> (the only outside effect), logs the two
  digests and fails with \<open>BadChecksum\<close>.
\<close>

theorem verify_checksum_verdict:
  assumes "files w fn = Some content"
  shows "verify_checksum c fn chk w =
     (if sha1_hex c content = chk
      then (Inr (), w\<lparr>logs := logs w @ [(DEBUG, CheckingSha1 fn)]\<rparr>)
      else (Inl BadChecksum,
            w\<lparr>files := (files w)(fn := None),
              trace := trace w @ [Unlink fn],
              logs := logs w @
                [(DEBUG, CheckingSha1 fn), (ERROR, BadSha1 fn (sha1_hex c content) chk)]\<rparr>))"
  using assms
  by (simp add: verify_checksum_def bnd_def log_def open_file_def os_unlink_def raise_def ret_def
      read_loop_all Let_def)

theorem verify_checksum_verdict_witness:
  "files (demo_world [(''/tmp/d.zip'', ''abc'')]) ''/tmp/d.zip'' = Some ''abc''
   \<and> fst (verify_checksum demo_ctx ''/tmp/d.zip'' ''sha1:abc''
          (demo_world [(''/tmp/d.zip'', ''abc'')])) = Inr ()
   \<and> files (snd (verify_checksum demo_ctx ''/tmp/d.zip'' ''sha1:abc''
          (demo_world [(''/tmp/d.zip'', ''abc'')]))) ''/tmp/d.zip'' = Some ''abc''
   \<and> fst (verify_checksum demo_ctx ''/tmp/d.zip'' ''sha1:abd''
          (demo_world [(''/tmp/d.zip'', ''abc'')])) = Inl BadChecksum
   \<and> files (snd (verify_checksum demo_ctx ''/tmp/d.zip'' ''sha1:abd''
          (demo_world [(''/tmp/d.zip'', ''abc'')]))) ''/tmp/d.zip'' = None"
proof -
  have h: "files (demo_world [(''/tmp/d.zip'', ''abc'')]) ''/tmp/d.zip'' = Some ''abc''"
    by (simp add: demo_world_def)
  show ?thesis
    using h verify_checksum_verdict [OF h, of demo_ctx "''sha1:abc''"]
      verify_checksum_verdict [OF h, of demo_ctx "''sha1:abd''"]
    by (simp add: demo_ctx_def)
qed

subsection \<open>What an action leaves alone\<close>

lemma extends_refl: "extends PL PE w w"
  by (simp add: extends_def)

lemma extends_trans:
  assumes "extends PL PE w w1" and "extends PL PE w1 w2"
  shows "extends PL PE w w2"
proof -
  from assms(1) obtain ls evs where a: "logs w1 = logs w @ ls" "list_all PL ls"
      "trace w1 = trace w @ evs" "list_all PE evs" "\<forall>fn. is_loaded fn w \<longrightarrow> is_loaded fn w1"
    unfolding extends_def by blast
  from assms(2) obtain ls' evs' where b: "logs w2 = logs w1 @ ls'" "list_all PL ls'"
      "trace w2 = trace w1 @ evs'" "list_all PE evs'" "\<forall>fn. is_loaded fn w1 \<longrightarrow> is_loaded fn w2"
    unfolding extends_def by blast
  have "logs w2 = logs w @ (ls @ ls')" "list_all PL (ls @ ls')"
       "trace w2 = trace w @ (evs @ evs')" "list_all PE (evs @ evs')"
       "\<forall>fn. is_loaded fn w \<longrightarrow> is_loaded fn w2"
    using a b by simp_all
  then show ?thesis unfolding extends_def by blast
qed

lemma persistent_True: "persistent (\<lambda>w. True)"
  by (simp add: persistent_def)


lemma within_ret: "within I PL PE (ret x)"
  by (simp add: within_def ret_def extends_refl)

lemma within_raise: "within I PL PE (raise e)"
  by (simp add: within_def raise_def extends_refl)

lemma within_bnd:
  assumes "persistent I" and "within I PL PE m" and "\<And>x. within I PL PE (f x)"
  shows "within I PL PE (bnd m f)"
  unfolding within_def
proof (intro allI impI)
  fix w assume i: "I w"
  obtain r w' where mw: "m w = (r, w')" by (cases "m w")
  have e1: "extends PL PE w w'" using assms(2) mw i unfolding within_def by (metis snd_conv)
  then have i': "I w'" using assms(1) i unfolding persistent_def by blast
  show "extends PL PE w (snd (bnd m f w))"
  proof (cases r)
    case (Inl e)
    then show ?thesis using mw e1 by (simp add: bnd_def)
  next
    case (Inr x)
    have "extends PL PE w' (snd (f x w'))" using assms(3) i' unfolding within_def by blast
    then show ?thesis using mw Inr e1 by (simp add: bnd_def extends_trans)
  qed
qed

lemma within_log: "PL (l, m) \<Longrightarrow> within I PL PE (log l m)"
  unfolding within_def log_def extends_def
  by (simp add: is_loaded_def)

lemma within_os_path_exists: "within I PL PE (os_path_exists fn)"
  by (simp add: within_def os_path_exists_def extends_refl)

lemma within_open_file: "within I PL PE (open_file fn)"
  by (simp add: within_def open_file_def extends_refl split: option.splits)

lemma within_popen: "PE ev \<Longrightarrow> within I PL PE (popen c ev)"
  unfolding within_def popen_def extends_def
  by (simp add: is_loaded_def Let_def)

lemma within_confirm: "PE (Confirm p) \<Longrightarrow> within I PL PE (confirm c p)"
  unfolding within_def confirm_def extends_def
  by (simp add: is_loaded_def)

lemma within_register_loaded: "within I PL PE (register_loaded fn)"
  unfolding within_def register_loaded_def extends_def
  by (simp add: is_loaded_def split: option.splits)

lemma within_if: "within I PL PE m1 \<Longrightarrow> within I PL PE m2 \<Longrightarrow> within I PL PE (if b then m1 else m2)"
  by simp





lemma within_find_loop:
  assumes "persistent I" "\<And>l m. activation (l, m) = None \<Longrightarrow> PL (l, m)"
  shows "within I PL PE (find_loop sharedir name sqlfile fns tried)"
proof (induction fns arbitrary: tried)
  case Nil
  show ?case by (simp add: within_raise)
next
  case (Cons fn fns)
  show ?case
    by (simp add: Let_def Cons)
       (intro impI within_bnd within_log within_os_path_exists assms, simp,
        simp add: within_ret Cons)
qed

lemma within_find_sql_file:
  assumes "persistent I" "\<And>l m. activation (l, m) = None \<Longrightarrow> PL (l, m)"
  shows "within I PL PE (find_sql_file c name sqlfile)"
  unfolding find_sql_file_def Let_def by (intro within_find_loop assms)

lemma within_load_sql_file:
  assumes "persistent I" "PE (psql_file c fn)"
  shows "within I PL PE (load_sql c (Some fn) None)"
  using assms(2) unfolding load_sql_def Let_def psql_file_def
  by (auto simp: falsy_def intro!: within_bnd within_open_file within_popen within_raise within_ret assms(1)
      split: prod.splits)





lemma within_Load_find:
  assumes "persistent I" "\<And>l m. activation (l, m) = None \<Longrightarrow> PL (l, m)" "\<And>p. PE (Confirm p)"
  shows "within I PL PE (Load_find c name sqlfile)"
  unfolding Load_find_def Let_def
  by (intro within_bnd within_find_sql_file within_if within_confirm within_ret assms)

lemma within_Load_once:
  assumes "persistent I" "PL (INFO, AlreadyLoaded fn)" "PE (psql_file c fn)"
  shows "within I PL PE (Load_once c fn)"
proof -
  have a: "within I PL PE (log INFO (AlreadyLoaded fn))"
    by (intro within_log assms)
  have b: "within I PL PE (bnd (load_sql c (Some fn) None) (\<lambda>_. register_loaded fn))"
    by (intro within_bnd within_load_sql_file within_register_loaded assms)
  show ?thesis
    using a b unfolding within_def Load_once_def by simp
qed


lemma within_Load_sql_file:
  assumes "persistent I" "\<And>l m. activation (l, m) = None \<Longrightarrow> PL (l, m)"
    "\<And>p. PE (Confirm p)" "\<And>fn. PE (psql_file c fn)"
  shows "within I PL PE (Load_sql_file c name sqlfile)"
  unfolding Load_sql_file_def
  by (intro within_bnd within_Load_find within_Load_once assms) (simp_all add: assms)

lemma within_Unload_sql_file:
  assumes "persistent I" "\<And>l m. activation (l, m) = None \<Longrightarrow> PL (l, m)"
    "\<And>p. PE (Confirm p)" "\<And>fn. PE (psql_file c fn)"
  shows "within I PL PE (Unload_sql_file c name sqlfile)"
  unfolding Unload_sql_file_def
  by (intro within_bnd within_find_sql_file within_confirm within_load_sql_file assms)



subsection \<open>The order of load and unload\<close>







subsection \<open>Running the concrete setting\<close>

lemmas action_defs = ret_def raise_def bnd_def log_def os_path_exists_def open_file_def
  os_unlink_def popen_def confirm_def register_loaded_def is_loaded_def via_files_def

lemmas load_defs = Load_run_def Unload_run_def Load_load_ext_def Unload_load_ext_def
  Load_sql_file_def Unload_sql_file_def Load_find_def Load_once_def Unload_name_def
  create_extension_def drop_extension_def load_sql_def is_extension_def control_file_def
  find_sql_file_def sql_tries_def basename_def rsplit_dot_first_def endswith_def not_sql_def
  text_of_def falsy_def Label_def os_path_join_def find_psql_def get_pg_version_def
  call_psql_def

lemma parse_92: "parse_pg_version ''PostgreSQL 9.2.0 on x86_64'' = Inr (9, 2, 0)"
  by (simp add: parse_pg_version_def is_space_def is_digit_def int_of_digits_def Let_def)

lemma parse_84: "parse_pg_version ''PostgreSQL 8.4.1 on x86_64'' = Inr (8, 4, 1)"
  by (simp add: parse_pg_version_def is_space_def is_digit_def int_of_digits_def Let_def)









subsection \<open>The search for the SQL file\<close>

lemma find_loop_frame:
  "files (snd (find_loop sd name f ts tried w)) = files w
   \<and> trace (snd (find_loop sd name f ts tried w)) = trace w
   \<and> loaded (snd (find_loop sd name f ts tried w)) = loaded w"
  by (induction ts arbitrary: tried w)
     (simp_all add: bnd_def log_def os_path_exists_def ret_def raise_def Let_def)

lemma find_loop_first:
  assumes "\<forall>t \<in> tried. files w (sd @ ''/'' @ t) = None"
  shows "fst (find_loop sd name f ts tried w) =
     (case List.find (\<lambda>t. files w (sd @ ''/'' @ t) \<noteq> None) ts of
        Some t \<Rightarrow> Inr (sd @ ''/'' @ t)
      | None \<Rightarrow> Inl (PgxnClientException (CannotFindSqlFile name f)))"
  using assms
proof (induction ts arbitrary: tried w)
  case Nil
  show ?case by (simp add: raise_def)
next
  case (Cons t ts)
  let ?w1 = "w\<lparr>logs := logs w @ [(DEBUG, CheckingSqlFileIn (sd @ ''/'' @ t))]\<rparr>"
  show ?case
  proof (cases "t \<in> tried")
    case True
    then have "files w (sd @ ''/'' @ t) = None" using Cons.prems by blast
    then show ?thesis using True Cons.IH [of tried w] Cons.prems by simp
  next
    case False
    show ?thesis
    proof (cases "files w (sd @ ''/'' @ t) = None")
      case True
      have "\<forall>u \<in> insert t tried. files ?w1 (sd @ ''/'' @ u) = None"
        using True Cons.prems by simp
      from Cons.IH [OF this] show ?thesis
        using False True
        by (simp add: bnd_def log_def os_path_exists_def ret_def Let_def)
    next
      case ex: False
      then show ?thesis using False
        by (simp add: bnd_def log_def os_path_exists_def ret_def Let_def)
    qed
  qed
qed

lemma find_sql_file_result:
  "fst (find_sql_file c name sqlfile w) =
     (if files w (pg_config c ''sharedir'' @ ''/'' @ name @ ''/'' @ basename sqlfile) \<noteq> None
      then Inr (pg_config c ''sharedir'' @ ''/'' @ name @ ''/'' @ basename sqlfile)
      else if files w (pg_config c ''sharedir'' @ ''/'' @ rsplit_dot_first (basename sqlfile)
                         @ ''/'' @ basename sqlfile) \<noteq> None
      then Inr (pg_config c ''sharedir'' @ ''/'' @ rsplit_dot_first (basename sqlfile)
                  @ ''/'' @ basename sqlfile)
      else if files w (pg_config c ''sharedir'' @ ''/'' @ ''contrib/'' @ basename sqlfile) \<noteq> None
      then Inr (pg_config c ''sharedir'' @ ''/'' @ ''contrib/'' @ basename sqlfile)
      else Inl (PgxnClientException (CannotFindSqlFile name (basename sqlfile))))
   \<and> files (snd (find_sql_file c name sqlfile w)) = files w
   \<and> trace (snd (find_sql_file c name sqlfile w)) = trace w
   \<and> loaded (snd (find_sql_file c name sqlfile w)) = loaded w"
proof -
  let ?sd = "pg_config c ''sharedir''"
  let ?f = "basename sqlfile"
  let ?P = "\<lambda>t. files w (?sd @ ''/'' @ t) \<noteq> None"
  have e: "find_sql_file c name sqlfile w = find_loop ?sd name ?f (sql_tries name ?f) {} w"
    by (simp only: find_sql_file_def Let_def)
  have "\<forall>t \<in> {}. files w (?sd @ ''/'' @ t) = None" by simp
  from find_loop_first [OF this, of name ?f "sql_tries name ?f"]
  have r: "fst (find_loop ?sd name ?f (sql_tries name ?f) {} w) =
     (case List.find ?P (sql_tries name ?f) of
        Some t \<Rightarrow> Inr (?sd @ ''/'' @ t)
      | None \<Rightarrow> Inl (PgxnClientException (CannotFindSqlFile name ?f)))" .
  have l: "List.find ?P (sql_tries name ?f) =
     (if ?P (name @ ''/'' @ ?f) then Some (name @ ''/'' @ ?f)
      else if ?P (rsplit_dot_first ?f @ ''/'' @ ?f) then Some (rsplit_dot_first ?f @ ''/'' @ ?f)
      else if ?P (''contrib/'' @ ?f) then Some (''contrib/'' @ ?f) else None)"
    unfolding sql_tries_def by (simp only: find.simps)
  have 1: "fst (find_sql_file c name sqlfile w) =
     (if ?P (name @ ''/'' @ ?f) then Inr (?sd @ ''/'' @ name @ ''/'' @ ?f)
      else if ?P (rsplit_dot_first ?f @ ''/'' @ ?f)
      then Inr (?sd @ ''/'' @ rsplit_dot_first ?f @ ''/'' @ ?f)
      else if ?P (''contrib/'' @ ?f) then Inr (?sd @ ''/'' @ ''contrib/'' @ ?f)
      else Inl (PgxnClientException (CannotFindSqlFile name ?f)))"
    unfolding e r l by (simp del: find_loop.simps)
  show ?thesis
    using 1 find_loop_frame [of ?sd name ?f "sql_tries name ?f" "{}" w] unfolding e
    by (simp del: find_loop.simps)
qed

text \<open>
  C6. \<^verbatim>\<open>find_sql_file\<close> returns the first of
  \<^verbatim>\<open><sharedir>/<name>/<file>\<close>, \<^verbatim>\<open><sharedir>/<file without extension>/<file>\<close> and
  \<^verbatim>\<open><sharedir>/contrib/<file>\<close> that exists, in this order, whether or not a later one
  exists too, where \<^verbatim>\<open><file>\<close> is the base name of the file it was given; when none
  exists it fails with the error that carries the name of the object and the file name.
  The search changes no file, starts no process, asks nothing and loads nothing.
\<close>

theorem find_sql_file_order:
  "fst (find_sql_file c name sqlfile w) =
     (if files w (pg_config c ''sharedir'' @ ''/'' @ name @ ''/'' @ basename sqlfile) \<noteq> None
      then Inr (pg_config c ''sharedir'' @ ''/'' @ name @ ''/'' @ basename sqlfile)
      else if files w (pg_config c ''sharedir'' @ ''/'' @ rsplit_dot_first (basename sqlfile)
                         @ ''/'' @ basename sqlfile) \<noteq> None
      then Inr (pg_config c ''sharedir'' @ ''/'' @ rsplit_dot_first (basename sqlfile)
                  @ ''/'' @ basename sqlfile)
      else if files w (pg_config c ''sharedir'' @ ''/'' @ ''contrib/'' @ basename sqlfile) \<noteq> None
      then Inr (pg_config c ''sharedir'' @ ''/'' @ ''contrib/'' @ basename sqlfile)
      else Inl (PgxnClientException (CannotFindSqlFile name (basename sqlfile))))
   \<and> files (snd (find_sql_file c name sqlfile w)) = files w
   \<and> trace (snd (find_sql_file c name sqlfile w)) = trace w
   \<and> loaded (snd (find_sql_file c name sqlfile w)) = loaded w"
  by (rule find_sql_file_result)

theorem find_sql_file_order_witness:
  "fst (find_sql_file demo_ctx ''foo'' ''sql/foo.sql'' sql_world) = Inr ''/pg/sharedir/foo/foo.sql''
   \<and> fst (find_sql_file demo_ctx ''baz'' ''bar.sql'' sql_world) = Inr ''/pg/sharedir/contrib/bar.sql''
   \<and> fst (find_sql_file demo_ctx ''baz'' ''baz.sql'' sql_world)
       = Inl (PgxnClientException (CannotFindSqlFile ''baz'' ''baz.sql''))"
  using find_sql_file_order [of demo_ctx "''foo''" "''sql/foo.sql''" sql_world]
    find_sql_file_order [of demo_ctx "''baz''" "''bar.sql''" sql_world]
    find_sql_file_order [of demo_ctx "''baz''" "''baz.sql''" sql_world]
  by (simp add: sql_world_def demo_world_def demo_ctx_def basename_def rsplit_dot_first_def)

lemma basename_takeWhile:
  "takeWhile (\<lambda>ch. ch \<noteq> CHR ''/'') (takeWhile (\<lambda>ch. ch \<noteq> CHR ''/'') xs)
     = takeWhile (\<lambda>ch. ch \<noteq> CHR ''/'') xs"
  by simp

lemma basename_idem: "basename (basename p) = basename p"
  by (simp add: basename_def basename_takeWhile)

lemma basename_no_slash:
  assumes "CHR ''/'' \<notin> set p"
  shows "basename p = p"
proof -
  have h: "takeWhile (\<lambda>ch. ch \<noteq> CHR ''/'') (rev p) = rev p"
    by (rule takeWhile_eq_all_conv [THEN iffD2]) (use assms in auto)
  show ?thesis unfolding basename_def h by simp
qed

lemma takeWhile_append_hit:
  "\<exists>x \<in> set xs. \<not> P x \<Longrightarrow> takeWhile P (xs @ ys) = takeWhile P xs"
  by (induction xs) auto

lemma basename_append_slash: "CHR ''/'' \<in> set q \<Longrightarrow> basename (p @ q) = basename q"
  using takeWhile_append_hit [of "rev q" "\<lambda>ch. ch \<noteq> CHR ''/''" "rev p"]
  by (simp add: basename_def)

lemma find_sql_file_basename: "find_sql_file c name (basename s) = find_sql_file c name s"
  by (simp add: find_sql_file_def basename_idem)

subsection \<open>Install and uninstall\<close>

lemma acquire_dir: "get_spec c = SpecDir d \<Longrightarrow> acquire c dir w = (Inr d, w)"
  by (simp add: acquire_def ret_def)

lemma Install_trace:
  "trace (snd (Install_inun c pdir w)) =
     gated c [RunMake [''all''] pdir None None, RunMake [''install''] pdir None (opts_sudo c)]
       (trace w) (files w)"
  by (simp add: Install_inun_def run_make_def bnd_def log_def popen_def raise_def ret_def Let_def)

lemma Uninstall_trace:
  "trace (snd (Uninstall_inun c pdir w)) =
     gated c [RunMake [''uninstall''] pdir None (opts_sudo c)] (trace w) (files w)"
  by (simp add: Uninstall_inun_def run_make_def bnd_def log_def popen_def raise_def ret_def Let_def)

lemma maybe_run_configure_absent:
  assumes "files w (os_path_join pdir ''configure'') = None"
  shows "maybe_run_configure c pdir w =
     (Inr (), w\<lparr>logs := logs w @ [(DEBUG, CheckingPath (os_path_join pdir ''configure''))]\<rparr>)"
  using assms
  by (simp add: maybe_run_configure_def bnd_def log_def os_path_exists_def ret_def Let_def)

lemma maybe_run_configure_present:
  assumes "files w (os_path_join pdir ''configure'') \<noteq> None"
  shows "maybe_run_configure c pdir w =
     (if returncode (run_process c (trace w) (files w) (configure_event pdir)) \<noteq> 0
      then Inl (PgxnClientException
             (ConfigureFailed (returncode (run_process c (trace w) (files w) (configure_event pdir)))))
      else Inr (),
      w\<lparr>logs := logs w @ [(DEBUG, CheckingPath (os_path_join pdir ''configure'')),
                           (INFO, RunningConfigure)],
        files := new_files (run_process c (trace w) (files w) (configure_event pdir)),
        trace := trace w @ [configure_event pdir]\<rparr>)"
proof -
  from assms obtain d where "files w (os_path_join pdir ''configure'') = Some d" by auto
  then show ?thesis
    by (simp add: maybe_run_configure_def bnd_def log_def os_path_exists_def ret_def raise_def
        popen_def configure_event_def Let_def)
qed

lemma InstallUninstall_run_acquired:
  assumes "acquire c dir w = (Inr pdir, w1)"
  shows "InstallUninstall_run c cmd dir w =
     bnd (maybe_run_configure c pdir) (\<lambda>_. inun c cmd pdir) w1"
  using assms by (simp add: InstallUninstall_run_def bnd_def)

text \<open>
  C7. Let the source directory be \<open>pdir\<close>, acquired in the world \<open>w1\<close>. When it has no
  \<^verbatim>\<open>configure\<close>, the configure step succeeds and only writes a debug line, the command
  goes on with its own steps in that world, and these are, each started when the one before
  it has returned 0, \<^verbatim>\<open>make all\<close> and \<^verbatim>\<open>make install\<close> for \<^verbatim>\<open>install\<close>, and
  \<^verbatim>\<open>make uninstall\<close> for \<^verbatim>\<open>uninstall\<close>. When it has a \<^verbatim>\<open>configure\<close> that returns
  a code other than 0, the command fails with ``configure failed'' and that code, and the
  configure script is the only process it has started: the build tool is not run.
\<close>

theorem configure_is_optional:
  assumes "acquire c dir w = (Inr pdir, w1)"
  shows "(files w1 (os_path_join pdir ''configure'') = None \<longrightarrow>
            maybe_run_configure c pdir w1 =
              (Inr (), w1\<lparr>logs := logs w1 @ [(DEBUG, CheckingPath (os_path_join pdir ''configure''))]\<rparr>)
          \<and> InstallUninstall_run c cmd dir w =
              inun c cmd pdir
                (w1\<lparr>logs := logs w1 @ [(DEBUG, CheckingPath (os_path_join pdir ''configure''))]\<rparr>)
          \<and> trace (snd (InstallUninstall_run c Install dir w)) =
              gated c [RunMake [''all''] pdir None None,
                       RunMake [''install''] pdir None (opts_sudo c)] (trace w1) (files w1)
          \<and> trace (snd (InstallUninstall_run c Uninstall dir w)) =
              gated c [RunMake [''uninstall''] pdir None (opts_sudo c)] (trace w1) (files w1))
       \<and> (files w1 (os_path_join pdir ''configure'') \<noteq> None
            \<and> returncode (run_process c (trace w1) (files w1) (configure_event pdir)) \<noteq> 0 \<longrightarrow>
            fst (InstallUninstall_run c cmd dir w) =
              Inl (PgxnClientException (ConfigureFailed
                (returncode (run_process c (trace w1) (files w1) (configure_event pdir)))))
          \<and> trace (snd (InstallUninstall_run c cmd dir w)) = trace w1 @ [configure_event pdir]
          \<and> \<not> is_make (configure_event pdir))"
proof (intro conjI impI)
  assume a: "files w1 (os_path_join pdir ''configure'') = None"
  show m: "maybe_run_configure c pdir w1 =
      (Inr (), w1\<lparr>logs := logs w1 @ [(DEBUG, CheckingPath (os_path_join pdir ''configure''))]\<rparr>)"
    using a by (rule maybe_run_configure_absent)
  show r: "InstallUninstall_run c cmd dir w =
      inun c cmd pdir (w1\<lparr>logs := logs w1 @ [(DEBUG, CheckingPath (os_path_join pdir ''configure''))]\<rparr>)"
    for cmd
    by (simp add: InstallUninstall_run_acquired [OF assms] bnd_def m)
  show "trace (snd (InstallUninstall_run c Install dir w)) =
      gated c [RunMake [''all''] pdir None None,
               RunMake [''install''] pdir None (opts_sudo c)] (trace w1) (files w1)"
    unfolding r by (simp add: inun_def Install_trace del: gated.simps)
  show "trace (snd (InstallUninstall_run c Uninstall dir w)) =
      gated c [RunMake [''uninstall''] pdir None (opts_sudo c)] (trace w1) (files w1)"
    unfolding r by (simp add: inun_def Uninstall_trace del: gated.simps)
next
  assume a: "files w1 (os_path_join pdir ''configure'') \<noteq> None
     \<and> returncode (run_process c (trace w1) (files w1) (configure_event pdir)) \<noteq> 0"
  then have e: "files w1 (os_path_join pdir ''configure'') \<noteq> None" by simp
  show "fst (InstallUninstall_run c cmd dir w) =
      Inl (PgxnClientException (ConfigureFailed
        (returncode (run_process c (trace w1) (files w1) (configure_event pdir)))))"
    using a
    by (simp add: InstallUninstall_run_acquired [OF assms] bnd_def
        maybe_run_configure_present [OF e])
  show "trace (snd (InstallUninstall_run c cmd dir w)) = trace w1 @ [configure_event pdir]"
    using a
    by (simp add: InstallUninstall_run_acquired [OF assms] bnd_def
        maybe_run_configure_present [OF e])
  show "\<not> is_make (configure_event pdir)"
    by (simp add: is_make_def configure_event_def)
qed

theorem configure_is_optional_witness:
  "trace (snd (InstallUninstall_run demo_ctx Install ''/tmp/x'' (demo_world []))) =
     [RunMake [''all''] ''ext'' None None, RunMake [''install''] ''ext'' None None]
   \<and> trace (snd (InstallUninstall_run demo_ctx Uninstall ''/tmp/x'' (demo_world []))) =
     [RunMake [''uninstall''] ''ext'' None None]
   \<and> fst (InstallUninstall_run failing_ctx Install ''/tmp/x'' configure_world) =
     Inl (PgxnClientException (ConfigureFailed 1))
   \<and> trace (snd (InstallUninstall_run failing_ctx Install ''/tmp/x'' configure_world)) =
     [Popen [''ext/configure''] (Some ''ext'') NoStdin]"
proof -
  have a: "acquire demo_ctx ''/tmp/x'' (demo_world []) = (Inr ''ext'', demo_world [])"
    by (rule acquire_dir) (simp add: demo_ctx_def)
  have b: "acquire failing_ctx ''/tmp/x'' configure_world = (Inr ''ext'', configure_world)"
    by (rule acquire_dir) (simp add: failing_ctx_def demo_ctx_def)
  show ?thesis
    using configure_is_optional [OF a, of Install] configure_is_optional [OF b, of Install]
    by (simp add: demo_world_def demo_ctx_def failing_ctx_def configure_world_def
        os_path_join_def configure_event_def is_make_def inun_def Install_inun_def
        run_make_def action_defs Let_def)
qed

lemma InstallUninstall_trace:
  assumes "acquire c dir w = (Inr pdir, w1)"
  shows "trace (snd (InstallUninstall_run c Install dir w)) =
       gated c (configure_step pdir w1 @
                [RunMake [''all''] pdir None None, RunMake [''install''] pdir None (opts_sudo c)])
         (trace w1) (files w1)"
    and "trace (snd (InstallUninstall_run c Uninstall dir w)) =
       gated c (configure_step pdir w1 @ [RunMake [''uninstall''] pdir None (opts_sudo c)])
         (trace w1) (files w1)"
proof -
  show "trace (snd (InstallUninstall_run c Install dir w)) =
       gated c (configure_step pdir w1 @
                [RunMake [''all''] pdir None None, RunMake [''install''] pdir None (opts_sudo c)])
         (trace w1) (files w1)"
  proof (cases "files w1 (os_path_join pdir ''configure'') = None")
    case True
    then show ?thesis
      by (simp add: InstallUninstall_run_acquired [OF assms] bnd_def configure_step_def
          maybe_run_configure_absent inun_def Install_trace del: gated.simps)
  next
    case False
    then show ?thesis
      by (simp add: InstallUninstall_run_acquired [OF assms] bnd_def configure_step_def
          maybe_run_configure_present inun_def Install_trace)
  qed
  show "trace (snd (InstallUninstall_run c Uninstall dir w)) =
       gated c (configure_step pdir w1 @ [RunMake [''uninstall''] pdir None (opts_sudo c)])
         (trace w1) (files w1)"
  proof (cases "files w1 (os_path_join pdir ''configure'') = None")
    case True
    then show ?thesis
      by (simp add: InstallUninstall_run_acquired [OF assms] bnd_def configure_step_def
          maybe_run_configure_absent inun_def Uninstall_trace del: gated.simps)
  next
    case False
    then show ?thesis
      by (simp add: InstallUninstall_run_acquired [OF assms] bnd_def configure_step_def
          maybe_run_configure_present inun_def Uninstall_trace)
  qed
qed

text \<open>
  C5, as amended. After the source is acquired, \<^verbatim>\<open>install\<close> runs the configure script
  if there is one, then \<^verbatim>\<open>make all\<close>, then \<^verbatim>\<open>make install\<close>, and \<^verbatim>\<open>uninstall\<close>
  runs the configure script if there is one, then \<^verbatim>\<open>make uninstall\<close>, in this order, each
  step when the one before it has returned 0. \<^verbatim>\<open>uninstall\<close> does not run \<^verbatim>\<open>make all\<close>.
\<close>

theorem pipeline_order:
  assumes "acquire c dir w = (Inr pdir, w1)"
  shows "trace (snd (InstallUninstall_run c Install dir w)) =
       gated c (configure_step pdir w1 @
                [RunMake [''all''] pdir None None, RunMake [''install''] pdir None (opts_sudo c)])
         (trace w1) (files w1)
     \<and> trace (snd (InstallUninstall_run c Uninstall dir w)) =
       gated c (configure_step pdir w1 @ [RunMake [''uninstall''] pdir None (opts_sudo c)])
         (trace w1) (files w1)"
  using InstallUninstall_trace [OF assms] by simp

theorem pipeline_order_witness:
  "trace (snd (InstallUninstall_run demo_ctx Install ''/tmp/x'' passing_configure_world)) =
     [Popen [''ext/configure''] (Some ''ext'') NoStdin,
      RunMake [''all''] ''ext'' None None, RunMake [''install''] ''ext'' None None]
   \<and> trace (snd (InstallUninstall_run demo_ctx Uninstall ''/tmp/x'' passing_configure_world)) =
     [Popen [''ext/configure''] (Some ''ext'') NoStdin,
      RunMake [''uninstall''] ''ext'' None None]"
proof -
  have a: "acquire demo_ctx ''/tmp/x'' passing_configure_world = (Inr ''ext'', passing_configure_world)"
    by (rule acquire_dir) (simp add: demo_ctx_def)
  show ?thesis
    using pipeline_order [OF a]
    by (simp add: demo_world_def demo_ctx_def passing_configure_world_def
        os_path_join_def configure_event_def configure_step_def)
qed

text \<open>
  C5 as it is worded fails: \<^verbatim>\<open>uninstall\<close> on a source directory with a configure script
  succeeds having run the configure script and \<^verbatim>\<open>make uninstall\<close>, and no \<^verbatim>\<open>make all\<close>.
\<close>

theorem uninstall_runs_no_all:
  "fst (InstallUninstall_run demo_ctx Uninstall ''/tmp/x'' passing_configure_world) = Inr ()
   \<and> trace (snd (InstallUninstall_run demo_ctx Uninstall ''/tmp/x'' passing_configure_world)) =
     [Popen [''ext/configure''] (Some ''ext'') NoStdin,
      RunMake [''uninstall''] ''ext'' None None]
   \<and> RunMake [''all''] ''ext'' None None \<notin>
       set (trace (snd (InstallUninstall_run demo_ctx Uninstall ''/tmp/x'' passing_configure_world)))"
  by (simp add: InstallUninstall_run_def acquire_def maybe_run_configure_def inun_def
      Uninstall_inun_def run_make_def action_defs Let_def demo_ctx_def demo_world_def
      passing_configure_world_def os_path_join_def)

subsection \<open>Check\<close>

text \<open>
  C9. \<^verbatim>\<open>check\<close> on the current directory, where \<^verbatim>\<open>make installcheck\<close> returns 1 and
  has left a \<^verbatim>\<open>regression.out\<close>: the file to copy and the place to copy it to are the same
  \<^verbatim>\<open>./regression.out\<close>, \<^verbatim>\<open>shutil.copy\<close> raises its own error in the handler, and the
  command ends with that error, not with the failure of the build tool.
\<close>

theorem check_in_source_directory:
  "fst (InstallUninstall_run here_ctx Check ''/tmp/x'' here_world) =
     Inl (ShutilError ''./regression.out'' ''./regression.out'')
   \<and> fst (InstallUninstall_run here_ctx Check ''/tmp/x'' here_world) \<noteq>
     Inl (PgxnClientException (CommandReturned 1 [''make'', ''installcheck'']))
   \<and> trace (snd (InstallUninstall_run here_ctx Check ''/tmp/x'' here_world)) =
     [RunMake [''installcheck''] ''.'' (Some []) None]"
  by (simp add: InstallUninstall_run_def acquire_def maybe_run_configure_def inun_def
      Check_inun_def copy_regression_def shutil_copy_def except_PgxnClientException_def
      run_make_def action_defs Let_def here_ctx_def failing_ctx_def demo_ctx_def demo_world_def
      here_world_def os_path_join_def)

text \<open>
  In a source directory that is not the current one the two files are copied and the failure
  of the build tool is the outcome.
\<close>

lemma check_elsewhere:
  "fst (InstallUninstall_run failing_ctx Check ''/tmp/x'' regression_world) =
     Inl (PgxnClientException (CommandReturned 1 [''make'', ''installcheck'']))
   \<and> files (snd (InstallUninstall_run failing_ctx Check ''/tmp/x'' regression_world))
       ''./regression.out'' = Some ''failed''
   \<and> files (snd (InstallUninstall_run failing_ctx Check ''/tmp/x'' regression_world))
       ''./regression.diffs'' = Some ''1c1''
   \<and> trace (snd (InstallUninstall_run failing_ctx Check ''/tmp/x'' regression_world)) =
     [RunMake [''installcheck''] ''ext'' (Some []) None,
      CopyFile ''ext/regression.out'' ''./regression.out'',
      CopyFile ''ext/regression.diffs'' ''./regression.diffs'']"
  by (simp add: InstallUninstall_run_def acquire_def maybe_run_configure_def inun_def
      Check_inun_def copy_regression_def shutil_copy_def except_PgxnClientException_def
      run_make_def action_defs Let_def failing_ctx_def demo_ctx_def demo_world_def
      regression_world_def os_path_join_def)

subsection \<open>The database client\<close>

lemma call_psql_run:
  "call_psql c (Some q) w =
     (let ev = Popen ([find_psql c] @ psql_options c @ [''-tA'', ''-c'', q]) None NoStdin;
          r = run_process c (trace w) (files w) ev;
          w' = w\<lparr>logs := logs w @ [(DEBUG, Calling ([find_psql c] @ psql_options c @ [''-tA'', ''-c'', q]))],
                 files := new_files r, trace := trace w @ [ev]\<rparr>
      in if returncode r \<noteq> 0 then (Inl (PgxnClientException (PsqlRunningCommand (returncode r))), w')
         else (Inr (stdout r), w'))"
  by (simp add: call_psql_def bnd_def log_def popen_def raise_def ret_def Let_def)

lemma get_pg_version_run:
  "get_pg_version c w =
     (if returncode (server_says c w) \<noteq> 0
      then (Inl (PgxnClientException (PsqlRunningCommand (returncode (server_says c w)))), asked c w)
      else case parse_pg_version (stdout (server_says c w)) of
             Inl e \<Rightarrow> (Inl e, asked c w)
           | Inr (a, b, d) \<Rightarrow>
               (Inr (a, b, d), (asked c w)\<lparr>logs := logs (asked c w) @ [(DEBUG, PostgreSQLVersion a b d)]\<rparr>))"
  unfolding get_pg_version_def
  by (simp add: bnd_def call_psql_run server_says_def version_query_def asked_def Let_def
      raise_def ret_def log_def split: sum.splits prod.splits)

subsection \<open>Unload: the file that is looked for\<close>

lemma find_sql_file_found:
  assumes "find_sql_file c name s w = (Inr fn, w1)"
  shows "files w fn \<noteq> None" and "files w1 = files w" and "trace w1 = trace w"
    and "loaded w1 = loaded w"
proof -
  have f: "fst (find_sql_file c name s w) = Inr fn" and s: "snd (find_sql_file c name s w) = w1"
    using assms by simp_all
  show "files w fn \<noteq> None"
    using find_sql_file_result [of c name s w] f by (auto split: if_splits)
  show "files w1 = files w" "trace w1 = trace w" "loaded w1 = loaded w"
    using find_sql_file_result [of c name s w] s by simp_all
qed

lemma find_sql_file_missing:
  assumes "find_sql_file c name s w = (Inl e, w1)"
  shows "trace w1 = trace w" and "files w1 = files w" and "loaded w1 = loaded w"
  using find_sql_file_result [of c name s w] assms by simp_all

lemma load_sql_file_run:
  assumes "files w fn \<noteq> None"
  shows "load_sql c (Some fn) None w =
     (if returncode (run_process c (trace w) (files w) (psql_file c fn)) \<noteq> 0
      then Inl (PgxnClientException
             (PsqlLoadingExtension (returncode (run_process c (trace w) (files w) (psql_file c fn)))))
      else Inr (),
      w\<lparr>files := new_files (run_process c (trace w) (files w) (psql_file c fn)),
        trace := trace w @ [psql_file c fn]\<rparr>)"
proof -
  from assms obtain d where "files w fn = Some d" by auto
  then show ?thesis
    by (simp add: load_sql_def falsy_def bnd_def open_file_def popen_def raise_def ret_def
        psql_file_def Let_def)
qed

lemma Unload_sql_file_trace:
  "trace (snd (Unload_sql_file c name sql w)) = trace w @
     (case fst (find_sql_file c name (Unload_name name sql) w) of
        Inl e \<Rightarrow> []
      | Inr fn \<Rightarrow> Confirm (ExecuteUninstall name fn) #
          (if answers c (trace w) (ExecuteUninstall name fn) then [psql_file c fn] else []))"
proof -
  obtain r w1 where f: "find_sql_file c name (Unload_name name sql) w = (r, w1)"
    by (cases "find_sql_file c name (Unload_name name sql) w")
  show ?thesis
  proof (cases r)
    case (Inl e)
    then show ?thesis using f find_sql_file_missing(1) [of c name "Unload_name name sql" w e w1]
      by (simp add: Unload_sql_file_def bnd_def)
  next
    case (Inr fn)
    have ex: "files w1 fn \<noteq> None" and tr: "trace w1 = trace w"
      using find_sql_file_found [of c name "Unload_name name sql" w fn w1] f Inr by simp_all
    have ex': "files (w1\<lparr>trace := trace w @ [Confirm (ExecuteUninstall name fn)]\<rparr>) fn \<noteq> None"
      using ex by simp
    show ?thesis using f Inr tr
      by (simp add: Unload_sql_file_def bnd_def confirm_def load_sql_file_run [OF ex'])
  qed
qed

lemma Unload_sql_file_missing:
  "fst (find_sql_file c name (Unload_name name sql) w) = Inl e \<Longrightarrow>
   fst (Unload_sql_file c name sql w) = Inl e"
  by (cases "find_sql_file c name (Unload_name name sql) w")
     (simp add: Unload_sql_file_def bnd_def)

lemma basename_uninstall:
  "basename (''uninstall_'' @ hint) =
     (if CHR ''/'' \<in> set hint then basename hint else ''uninstall_'' @ hint)"
proof (cases "CHR ''/'' \<in> set hint")
  case True
  then show ?thesis using basename_append_slash [of hint "''uninstall_''"] by simp
next
  case False
  then have "CHR ''/'' \<notin> set (''uninstall_'' @ hint)" by simp
  then show ?thesis using False basename_no_slash [of "''uninstall_'' @ hint"] by simp
qed

lemma endswith_sql_nonempty: "endswith hint ''.sql'' \<Longrightarrow> hint \<noteq> []"
  by (auto simp: endswith_def)

text \<open>
  C10. For a file hint that ends in \<^verbatim>\<open>.sql\<close>, the SQL-file path of \<^verbatim>\<open>Unload.load_ext\<close>
  looks for \<^verbatim>\<open>'uninstall_' + hint\<close>, and \<^verbatim>\<open>find_sql_file\<close> takes the base name of that:
  the three candidates and the error message have \<^verbatim>\<open>basename('uninstall_' + hint)\<close>. That
  is \<^verbatim>\<open>uninstall_<hint>\<close> for a hint with no slash, and the base name of the hint alone,
  without the prefix, for a hint with a directory. The file that is found is the one the
  user is asked about and the one that is executed; when none is found the activation fails
  with the error of the search.
\<close>

theorem unload_hint_prefixed:
  assumes "endswith hint ''.sql''"
  shows "Unload_name name (Some hint) = ''uninstall_'' @ hint
     \<and> basename (''uninstall_'' @ hint) =
         (if CHR ''/'' \<in> set hint then basename hint else ''uninstall_'' @ hint)
     \<and> fst (find_sql_file c name (Unload_name name (Some hint)) w) =
        (if files w (pg_config c ''sharedir'' @ ''/'' @ name @ ''/'' @ basename (''uninstall_'' @ hint)) \<noteq> None
         then Inr (pg_config c ''sharedir'' @ ''/'' @ name @ ''/'' @ basename (''uninstall_'' @ hint))
         else if files w (pg_config c ''sharedir'' @ ''/'' @
                   rsplit_dot_first (basename (''uninstall_'' @ hint)) @ ''/'' @
                   basename (''uninstall_'' @ hint)) \<noteq> None
         then Inr (pg_config c ''sharedir'' @ ''/'' @
                   rsplit_dot_first (basename (''uninstall_'' @ hint)) @ ''/'' @
                   basename (''uninstall_'' @ hint))
         else if files w (pg_config c ''sharedir'' @ ''/'' @ ''contrib/'' @
                   basename (''uninstall_'' @ hint)) \<noteq> None
         then Inr (pg_config c ''sharedir'' @ ''/'' @ ''contrib/'' @ basename (''uninstall_'' @ hint))
         else Inl (PgxnClientException
                (CannotFindSqlFile name (basename (''uninstall_'' @ hint)))))
     \<and> trace (snd (Unload_sql_file c name (Some hint) w)) = trace w @
        (case fst (find_sql_file c name (Unload_name name (Some hint)) w) of
           Inl e \<Rightarrow> []
         | Inr fn \<Rightarrow> Confirm (ExecuteUninstall name fn) #
             (if answers c (trace w) (ExecuteUninstall name fn) then [psql_file c fn] else []))
     \<and> (case fst (find_sql_file c name (Unload_name name (Some hint)) w) of
           Inl e \<Rightarrow> fst (Unload_sql_file c name (Some hint) w) = Inl e
         | Inr fn \<Rightarrow> True)"
proof -
  have n: "Unload_name name (Some hint) = ''uninstall_'' @ hint"
    using endswith_sql_nonempty [OF assms] by (simp add: Unload_name_def)
  have s: "fst (find_sql_file c name (Unload_name name (Some hint)) w) =
        (if files w (pg_config c ''sharedir'' @ ''/'' @ name @ ''/'' @ basename (''uninstall_'' @ hint)) \<noteq> None
         then Inr (pg_config c ''sharedir'' @ ''/'' @ name @ ''/'' @ basename (''uninstall_'' @ hint))
         else if files w (pg_config c ''sharedir'' @ ''/'' @
                   rsplit_dot_first (basename (''uninstall_'' @ hint)) @ ''/'' @
                   basename (''uninstall_'' @ hint)) \<noteq> None
         then Inr (pg_config c ''sharedir'' @ ''/'' @
                   rsplit_dot_first (basename (''uninstall_'' @ hint)) @ ''/'' @
                   basename (''uninstall_'' @ hint))
         else if files w (pg_config c ''sharedir'' @ ''/'' @ ''contrib/'' @
                   basename (''uninstall_'' @ hint)) \<noteq> None
         then Inr (pg_config c ''sharedir'' @ ''/'' @ ''contrib/'' @ basename (''uninstall_'' @ hint))
         else Inl (PgxnClientException
                (CannotFindSqlFile name (basename (''uninstall_'' @ hint)))))"
    unfolding n using find_sql_file_result [of c name "''uninstall_'' @ hint" w] by blast
  have m: "(case fst (find_sql_file c name (Unload_name name (Some hint)) w) of
           Inl e \<Rightarrow> fst (Unload_sql_file c name (Some hint) w) = Inl e
         | Inr fn \<Rightarrow> True)"
    using Unload_sql_file_missing [of c name "Some hint" w] by (simp split: sum.splits)
  from n basename_uninstall s Unload_sql_file_trace m show ?thesis by blast
qed

theorem unload_hint_prefixed_witness:
  "fst (find_sql_file demo_ctx ''foo'' (Unload_name ''foo'' (Some ''foo.sql'')) sql_world)
     = Inr ''/pg/sharedir/contrib/uninstall_foo.sql''
   \<and> trace (snd (Unload_sql_file demo_ctx ''foo'' (Some ''foo.sql'') sql_world)) =
       [Confirm (ExecuteUninstall ''foo'' ''/pg/sharedir/contrib/uninstall_foo.sql''),
        Popen [''/pg/bindir/psql''] None (FromFile ''/pg/sharedir/contrib/uninstall_foo.sql'')]
   \<and> fst (find_sql_file demo_ctx ''foo'' (Unload_name ''foo'' (Some ''sql/foo.sql'')) sql_world)
     = Inr ''/pg/sharedir/foo/foo.sql''
   \<and> trace (snd (Unload_sql_file demo_ctx ''foo'' (Some ''sql/foo.sql'') sql_world)) =
       [Confirm (ExecuteUninstall ''foo'' ''/pg/sharedir/foo/foo.sql''),
        Popen [''/pg/bindir/psql''] None (FromFile ''/pg/sharedir/foo/foo.sql'')]"
proof -
  have a: "endswith ''foo.sql'' ''.sql''" and b: "endswith ''sql/foo.sql'' ''.sql''"
    by (simp_all add: endswith_def)
  show ?thesis
    using unload_hint_prefixed [OF a, of "''foo''" demo_ctx sql_world]
      unload_hint_prefixed [OF b, of "''foo''" demo_ctx sql_world]
    by (simp add: sql_world_def demo_world_def demo_ctx_def psql_file_def load_defs action_defs
        Let_def)
qed

subsection \<open>The version of the server decides\<close>

lemma server_says_log [simp]: "server_says c (w\<lparr>logs := l\<rparr>) = server_says c w"
  by (simp add: server_says_def)

lemma asked_simps [simp]:
  "trace (asked c w) = trace w @ [version_query c]"
  "files (asked c w) = new_files (server_says c w)"
  "loaded (asked c w) = loaded w"
  by (simp_all add: asked_def)

lemma load_sql_data_run:
  assumes "d \<noteq> []"
  shows "load_sql c None (Some d) w =
     (if returncode (run_process c (trace w) (files w) (psql_data c d)) \<noteq> 0
      then Inl (PgxnClientException
             (PsqlLoadingExtension (returncode (run_process c (trace w) (files w) (psql_data c d)))))
      else Inr (),
      w\<lparr>files := new_files (run_process c (trace w) (files w) (psql_data c d)),
        trace := trace w @ [psql_data c d]\<rparr>)"
  using assms
  by (simp add: load_sql_def falsy_def bnd_def popen_def raise_def ret_def psql_data_def Let_def)

lemma not_native_extends:
  assumes "extends PL (\<lambda>e. \<not> is_native e) w w'"
  shows "filter is_native (trace w') = filter is_native (trace w)"
proof -
  from assms obtain evs where "trace w' = trace w @ evs" "list_all (\<lambda>e. \<not> is_native e) evs"
    unfolding extends_def by blast
  then show ?thesis by (simp add: list_all_iff)
qed

lemma Load_sql_file_not_native:
  "filter is_native (trace (snd (Load_sql_file c name sql w))) = filter is_native (trace w)"
proof -
  have "within (\<lambda>w. True) (\<lambda>x. True) (\<lambda>e. \<not> is_native e) (Load_sql_file c name sql)"
    by (intro within_Load_sql_file persistent_True) (simp_all add: psql_file_def)
  then show ?thesis unfolding within_def using not_native_extends by blast
qed

lemma Unload_sql_file_not_native:
  "filter is_native (trace (snd (Unload_sql_file c name sql w))) = filter is_native (trace w)"
proof -
  have "within (\<lambda>w. True) (\<lambda>x. True) (\<lambda>e. \<not> is_native e) (Unload_sql_file c name sql)"
    by (intro within_Unload_sql_file persistent_True) (simp_all add: psql_file_def)
  then show ?thesis unfolding within_def using not_native_extends by blast
qed

lemma version_query_not_native [simp]: "\<not> is_native (version_query c)"
  by (simp add: version_query_def)

text \<open>The three ways through \<^verbatim>\<open>Load.load_ext\<close> once the server has given its version.\<close>

lemma Load_load_ext_skip:
  "not_sql sql \<Longrightarrow> Load_load_ext c name sql w =
     (Inr (), w\<lparr>logs := logs w @ [(DEBUG, LoadingExtension name sql),
                                   (INFO, NotSQL (text_of sql) name)]\<rparr>)"
  by (simp add: Load_load_ext_def bnd_def log_def)

lemma Unload_load_ext_skip:
  "not_sql sql \<Longrightarrow> Unload_load_ext c name sql w =
     (Inr (), w\<lparr>logs := logs w @ [(DEBUG, UnloadingExtension name sql),
                                   (INFO, NotSQL (text_of sql) name)]\<rparr>)"
  by (simp add: Unload_load_ext_def bnd_def log_def)

lemma Load_load_ext_no_server:
  assumes "\<not> not_sql sql" "returncode (server_says c w) \<noteq> 0"
  shows "Load_load_ext c name sql w =
     (Inl (PgxnClientException (PsqlRunningCommand (returncode (server_says c w)))),
      asked c (w\<lparr>logs := logs w @ [(DEBUG, LoadingExtension name sql)]\<rparr>))"
  using assms by (simp add: Load_load_ext_def log_def get_pg_version_run bnd_def)

lemma Unload_load_ext_no_server:
  assumes "\<not> not_sql sql" "returncode (server_says c w) \<noteq> 0"
  shows "Unload_load_ext c name sql w =
     (Inl (PgxnClientException (PsqlRunningCommand (returncode (server_says c w)))),
      asked c (w\<lparr>logs := logs w @ [(DEBUG, UnloadingExtension name sql)]\<rparr>))"
  using assms by (simp add: Unload_load_ext_def log_def get_pg_version_run bnd_def)

lemma versioned_simps [simp]:
  "trace (versioned c entry v w) = trace w @ [version_query c]"
  "files (versioned c entry v w) = new_files (server_says c w)"
  "loaded (versioned c entry v w) = loaded w"
  by (simp_all add: versioned_def split: prod.splits)

lemma Load_load_ext_old:
  assumes "\<not> not_sql sql" "returncode (server_says c w) = 0"
    "parse_pg_version (stdout (server_says c w)) = Inr v" "\<not> tuple_ge v (9, 1, 0)"
  shows "Load_load_ext c name sql w =
     Load_sql_file c name sql (versioned c (DEBUG, LoadingExtension name sql) v w)"
proof -
  obtain a b d where v: "v = (a, b, d)" by (cases v)
  show ?thesis using assms unfolding v
    by (simp add: Load_load_ext_def log_def get_pg_version_run bnd_def versioned_def asked_def
        del: tuple_ge.simps)
qed

lemma Unload_load_ext_old:
  assumes "\<not> not_sql sql" "returncode (server_says c w) = 0"
    "parse_pg_version (stdout (server_says c w)) = Inr v" "\<not> tuple_ge v (9, 1, 0)"
  shows "Unload_load_ext c name sql w =
     Unload_sql_file c name sql (versioned c (DEBUG, UnloadingExtension name sql) v w)"
proof -
  obtain a b d where v: "v = (a, b, d)" by (cases v)
  show ?thesis using assms unfolding v
    by (simp add: Unload_load_ext_def log_def get_pg_version_run bnd_def versioned_def asked_def
        del: tuple_ge.simps)
qed

lemma Load_load_ext_new:
  assumes "\<not> not_sql sql" "returncode (server_says c w) = 0"
    "parse_pg_version (stdout (server_says c w)) = Inr v" "tuple_ge v (9, 1, 0)"
  shows "Load_load_ext c name sql w =
     (if new_files (server_says c w) (control_file c name) \<noteq> None
      then create_extension c name
      else bnd (confirm c (NoControlFileLoad name)) (\<lambda>_. Load_sql_file c name sql))
       ((versioned c (DEBUG, LoadingExtension name sql) v w)
          \<lparr>logs := logs (versioned c (DEBUG, LoadingExtension name sql) v w) @
                     [(DEBUG, CheckingIfExists (control_file c name))]\<rparr>)"
proof -
  obtain a b d where v: "v = (a, b, d)" by (cases v)
  show ?thesis using assms unfolding v
    by (simp add: Load_load_ext_def get_pg_version_run bnd_def versioned_def asked_def
        is_extension_def os_path_exists_def Let_def log_def del: tuple_ge.simps)
qed

lemma Unload_load_ext_new:
  assumes "\<not> not_sql sql" "returncode (server_says c w) = 0"
    "parse_pg_version (stdout (server_says c w)) = Inr v" "tuple_ge v (9, 1, 0)"
  shows "Unload_load_ext c name sql w =
     (if new_files (server_says c w) (control_file c name) \<noteq> None
      then drop_extension c name
      else bnd (confirm c (NoControlFileUnload name)) (\<lambda>_. Unload_sql_file c name sql))
       ((versioned c (DEBUG, UnloadingExtension name sql) v w)
          \<lparr>logs := logs (versioned c (DEBUG, UnloadingExtension name sql) v w) @
                     [(DEBUG, CheckingIfExists (control_file c name))]\<rparr>)"
proof -
  obtain a b d where v: "v = (a, b, d)" by (cases v)
  show ?thesis using assms unfolding v
    by (simp add: Unload_load_ext_def get_pg_version_run bnd_def versioned_def asked_def
        is_extension_def os_path_exists_def Let_def log_def del: tuple_ge.simps)
qed

lemma Load_old_not_native:
  assumes "parse_pg_version (stdout (server_says c w)) = Inr v" "\<not> tuple_ge v (9, 1, 0)"
  shows "filter is_native (trace (snd (Load_load_ext c name sql w))) = filter is_native (trace w)"
proof (cases "not_sql sql")
  case True
  then show ?thesis by (simp add: Load_load_ext_skip)
next
  case False
  show ?thesis
  proof (cases "returncode (server_says c w) = 0")
    case True
    show ?thesis
      by (simp add: Load_load_ext_old [OF False True assms] Load_sql_file_not_native)
  next
    case rc: False
    show ?thesis by (simp add: Load_load_ext_no_server [OF False rc])
  qed
qed

lemma Unload_old_not_native:
  assumes "parse_pg_version (stdout (server_says c w)) = Inr v" "\<not> tuple_ge v (9, 1, 0)"
  shows "filter is_native (trace (snd (Unload_load_ext c name sql w))) = filter is_native (trace w)"
proof (cases "not_sql sql")
  case True
  then show ?thesis by (simp add: Unload_load_ext_skip)
next
  case False
  show ?thesis
  proof (cases "returncode (server_says c w) = 0")
    case True
    show ?thesis
      by (simp add: Unload_load_ext_old [OF False True assms] Unload_sql_file_not_native)
  next
    case rc: False
    show ?thesis by (simp add: Unload_load_ext_no_server [OF False rc])
  qed
qed

lemma Load_native:
  assumes "parse_pg_version (stdout (server_says c w)) = Inr (a, b, d)"
    "tuple_ge (a, b, d) (9, 1, 0)" "returncode (server_says c w) = 0" "\<not> not_sql sql"
    "new_files (server_says c w) (control_file c name) \<noteq> None"
  shows "trace (snd (Load_load_ext c name sql w)) =
       trace w @ [version_query c, psql_data c (''CREATE EXTENSION '' @ Label name @ '';'')]"
    and "logs (snd (Load_load_ext c name sql w)) =
       logs w @ [(DEBUG, LoadingExtension name sql),
                 (DEBUG, Calling ([find_psql c] @ psql_options c @ [''-tA'', ''-c'', ''SELECT version();''])),
                 (DEBUG, PostgreSQLVersion a b d),
                 (DEBUG, CheckingIfExists (control_file c name))]"
  using assms(5)
  by (simp_all add: Load_load_ext_new [OF assms(4) assms(3) assms(1) assms(2)]
      create_extension_def load_sql_data_run versioned_def)

lemma Unload_native:
  assumes "parse_pg_version (stdout (server_says c w)) = Inr (a, b, d)"
    "tuple_ge (a, b, d) (9, 1, 0)" "returncode (server_says c w) = 0" "\<not> not_sql sql"
    "new_files (server_says c w) (control_file c name) \<noteq> None"
  shows "trace (snd (Unload_load_ext c name sql w)) =
       trace w @ [version_query c, psql_data c (''DROP EXTENSION '' @ Label name @ '';'')]"
    and "logs (snd (Unload_load_ext c name sql w)) =
       logs w @ [(DEBUG, UnloadingExtension name sql),
                 (DEBUG, Calling ([find_psql c] @ psql_options c @ [''-tA'', ''-c'', ''SELECT version();''])),
                 (DEBUG, PostgreSQLVersion a b d),
                 (DEBUG, CheckingIfExists (control_file c name))]"
  using assms(5)
  by (simp_all add: Unload_load_ext_new [OF assms(4) assms(3) assms(1) assms(2)]
      drop_extension_def load_sql_data_run versioned_def)

text \<open>
  C3. Let the server answer the version query with the version \<open>(a, b, d)\<close>. When that is
  below 9.1.0, neither \<^verbatim>\<open>load_ext\<close> feeds a command to the database client, so no
  \<^verbatim>\<open>CREATE EXTENSION\<close> or \<^verbatim>\<open>DROP EXTENSION\<close> is executed, whatever files exist. When
  it is 9.1.0 or above, the client has returned 0, and the control file of the name exists,
  an activation that gets to the version test (its file, if it has one, ends in
  \<^verbatim>\<open>.sql\<close>: any other object is skipped before the server is asked) starts two processes
  and no more, the version query and the client fed with \<^verbatim>\<open>CREATE EXTENSION <name>;\<close>
  (\<^verbatim>\<open>DROP EXTENSION <name>;\<close> for unload): no prompt, no SQL file executed; and its log
  has the four lines up to the test of the control file, none of them of a search for an
  SQL file.
\<close>

theorem version_gating:
  assumes "parse_pg_version (stdout (server_says c w)) = Inr (a, b, d)"
  shows "(\<not> tuple_ge (a, b, d) (9, 1, 0) \<longrightarrow>
            filter is_native (trace (snd (Load_load_ext c name sql w))) = filter is_native (trace w)
          \<and> filter is_native (trace (snd (Unload_load_ext c name sql w))) = filter is_native (trace w))
       \<and> (tuple_ge (a, b, d) (9, 1, 0) \<and> returncode (server_says c w) = 0 \<and> \<not> not_sql sql
            \<and> new_files (server_says c w) (control_file c name) \<noteq> None \<longrightarrow>
            trace (snd (Load_load_ext c name sql w)) =
              trace w @ [version_query c, psql_data c (''CREATE EXTENSION '' @ Label name @ '';'')]
          \<and> logs (snd (Load_load_ext c name sql w)) =
              logs w @ [(DEBUG, LoadingExtension name sql),
                (DEBUG, Calling ([find_psql c] @ psql_options c @ [''-tA'', ''-c'', ''SELECT version();''])),
                (DEBUG, PostgreSQLVersion a b d),
                (DEBUG, CheckingIfExists (control_file c name))]
          \<and> trace (snd (Unload_load_ext c name sql w)) =
              trace w @ [version_query c, psql_data c (''DROP EXTENSION '' @ Label name @ '';'')]
          \<and> logs (snd (Unload_load_ext c name sql w)) =
              logs w @ [(DEBUG, UnloadingExtension name sql),
                (DEBUG, Calling ([find_psql c] @ psql_options c @ [''-tA'', ''-c'', ''SELECT version();''])),
                (DEBUG, PostgreSQLVersion a b d),
                (DEBUG, CheckingIfExists (control_file c name))])"
  using Load_old_not_native [OF assms] Unload_old_not_native [OF assms]
    Load_native [OF assms] Unload_native [OF assms]
  by blast

theorem version_gating_witness:
  "filter is_native (trace (snd (Load_load_ext old_ctx ''foo'' (Some ''foo.sql'') both_world))) = []
   \<and> filter is_native (trace (snd (Unload_load_ext old_ctx ''foo'' (Some ''foo.sql'') both_world))) = []
   \<and> trace (snd (Load_load_ext old_ctx ''foo'' (Some ''foo.sql'') both_world)) =
       [Popen [''/pg/bindir/psql'', ''-tA'', ''-c'', ''SELECT version();''] None NoStdin,
        Popen [''/pg/bindir/psql''] None (FromFile ''/pg/sharedir/foo/foo.sql'')]
   \<and> trace (snd (Load_load_ext demo_ctx ''foo'' (Some ''foo.sql'') both_world)) =
       [Popen [''/pg/bindir/psql'', ''-tA'', ''-c'', ''SELECT version();''] None NoStdin,
        Popen [''/pg/bindir/psql''] None (FromData ''CREATE EXTENSION foo;'')]
   \<and> trace (snd (Unload_load_ext demo_ctx ''foo'' (Some ''foo.sql'') both_world)) =
       [Popen [''/pg/bindir/psql'', ''-tA'', ''-c'', ''SELECT version();''] None NoStdin,
        Popen [''/pg/bindir/psql''] None (FromData ''DROP EXTENSION foo;'')]"
proof -
  have o: "parse_pg_version (stdout (server_says old_ctx both_world)) = Inr (8, 4, 1)"
    by (simp add: server_says_def old_ctx_def demo_ctx_def parse_84)
  have n: "parse_pg_version (stdout (server_says demo_ctx both_world)) = Inr (9, 2, 0)"
    by (simp add: server_says_def demo_ctx_def parse_92)
  show ?thesis
    using version_gating [OF o, where name = "''foo''" and sql = "Some ''foo.sql''"]
      version_gating [OF n, where name = "''foo''" and sql = "Some ''foo.sql''"]
    by (simp add: load_defs action_defs Let_def old_ctx_def demo_ctx_def demo_world_def
        both_world_def parse_84 parse_92 server_says_def version_query_def psql_data_def)
qed

subsection \<open>A file is loaded once in a run\<close>

lemma executes_psql_file [simp]: "executes fn (psql_file c fn)"
  by (simp add: psql_file_def)






subsection \<open>A declined prompt\<close>

lemma hd_silent:
  assumes "\<And>w. trace (snd (m w)) = trace w"
  shows "halts_on_decline c m"
  unfolding halts_on_decline_def
proof (intro allI conjI impI)
  fix w show "prefix (trace w) (trace (snd (m w)))" by (simp only: assms prefix_order.refl)
next
  fix w tr p
  assume "declined_at c w tr p (snd (m w))"
  then have q: "prefix (tr @ [Confirm p]) (trace w)" and l: "length (trace w) \<le> length tr"
    unfolding declined_at_def assms by blast+
  have "length (tr @ [Confirm p]) \<le> length (trace w)" using q by (rule prefix_length_le)
  then have False using l by simp
  then show "trace (snd (m w)) = tr @ [Confirm p]" "fst (m w) = Inl UserAbort" by blast+
qed

lemma prefix_snoc_same_length:
  assumes "prefix (tr @ [x]) (tr0 @ [y])" "length tr0 \<le> length tr"
  shows "tr = tr0 \<and> x = y"
proof -
  have "length (tr @ [x]) \<le> length (tr0 @ [y])" using assms(1) by (rule prefix_length_le)
  then have l: "length tr = length tr0" using assms(2) by simp
  from assms(1) obtain zs where z: "tr0 @ [y] = (tr @ [x]) @ zs" unfolding prefix_def by blast
  have "length (tr0 @ [y]) = length ((tr @ [x]) @ zs)" using z by (rule arg_cong)
  then have "zs = []" using l by simp
  then have "tr0 @ [y] = tr @ [x]" using z by simp
  then show ?thesis by simp
qed

lemma hd_process:
  assumes "\<And>w. \<exists>ev. trace (snd (m w)) = trace w @ [ev] \<and> (\<forall>p. ev \<noteq> Confirm p)"
  shows "halts_on_decline c m"
  unfolding halts_on_decline_def
proof (intro allI conjI impI)
  fix w
  from assms [of w] obtain ev where e: "trace (snd (m w)) = trace w @ [ev]" by blast
  show "prefix (trace w) (trace (snd (m w)))" unfolding e by simp
next
  fix w tr p
  assume d: "declined_at c w tr p (snd (m w))"
  from assms [of w] obtain ev where e: "trace (snd (m w)) = trace w @ [ev]" "\<forall>p. ev \<noteq> Confirm p"
    by blast
  from d have q: "prefix (tr @ [Confirm p]) (trace w @ [ev])" and l: "length (trace w) \<le> length tr"
    unfolding declined_at_def e(1) by blast+
  from prefix_snoc_same_length [OF q l] have "Confirm p = ev" by blast
  then have False using e(2) by blast
  then show "trace (snd (m w)) = tr @ [Confirm p]" "fst (m w) = Inl UserAbort" by blast+
qed

lemma hd_ret: "halts_on_decline c (ret x)"
  by (rule hd_silent) (simp add: ret_def)

lemma hd_raise: "halts_on_decline c (raise e)"
  by (rule hd_silent) (simp add: raise_def)

lemma hd_log: "halts_on_decline c (log l m)"
  by (rule hd_silent) (simp add: log_def)

lemma hd_os_path_exists: "halts_on_decline c (os_path_exists fn)"
  by (rule hd_silent) (simp add: os_path_exists_def)

lemma hd_open_file: "halts_on_decline c (open_file fn)"
  by (rule hd_silent) (simp add: open_file_def split: option.splits)

lemma hd_register_loaded: "halts_on_decline c (register_loaded fn)"
  by (rule hd_silent) (simp add: register_loaded_def)

lemma hd_popen: "halts_on_decline c (popen c' (Popen argv cwd sin))"
  by (rule hd_process) (simp add: popen_def Let_def)

lemma hd_confirm: "halts_on_decline c (confirm c q)"
  unfolding halts_on_decline_def
proof (intro allI conjI impI)
  fix w show "prefix (trace w) (trace (snd (confirm c q w)))" by (simp add: confirm_def)
next
  fix w tr p
  assume d: "declined_at c w tr p (snd (confirm c q w))"
  have t: "trace (snd (confirm c q w)) = trace w @ [Confirm q]" by (simp add: confirm_def)
  from d have x: "prefix (tr @ [Confirm p]) (trace w @ [Confirm q])"
    and l: "length (trace w) \<le> length tr" and n: "\<not> answers c tr p"
    unfolding declined_at_def t by blast+
  from prefix_snoc_same_length [OF x l] have e: "tr = trace w" "p = q" by simp_all
  show "trace (snd (confirm c q w)) = tr @ [Confirm p]" unfolding t e by (rule refl)
  have "\<not> answers c (trace w) q" using n unfolding e .
  then show "fst (confirm c q w) = Inl UserAbort" by (simp add: confirm_def)
qed

lemma prefix_whole:
  assumes "length xs = length ys" "prefix xs ys"
  shows "xs = ys"
proof -
  from assms(2) obtain zs where z: "ys = xs @ zs" unfolding prefix_def by blast
  have "length ys = length (xs @ zs)" using z by (rule arg_cong)
  then have "zs = []" using assms(1) by simp
  then show ?thesis using z by simp
qed

lemma hd_bnd:
  assumes "halts_on_decline c m" and "\<And>x. halts_on_decline c (f x)"
  shows "halts_on_decline c (bnd m f)"
  unfolding halts_on_decline_def
proof (intro allI)
  fix w
  obtain r w1 where mw: "m w = (r, w1)" by (cases "m w")
  have "prefix (trace w) (trace (snd (m w)))"
    using assms(1) unfolding halts_on_decline_def by blast
  then have p1: "prefix (trace w) (trace w1)" by (simp add: mw)
  have "\<And>tr p. declined_at c w tr p (snd (m w)) \<Longrightarrow>
      trace (snd (m w)) = tr @ [Confirm p] \<and> fst (m w) = Inl UserAbort"
    using assms(1) unfolding halts_on_decline_def by blast
  then have m1: "\<And>tr p. declined_at c w tr p w1 \<Longrightarrow>
      trace w1 = tr @ [Confirm p] \<and> r = Inl UserAbort"
    by (simp add: mw)
  show "prefix (trace w) (trace (snd (bnd m f w))) \<and>
        (\<forall>tr p. declined_at c w tr p (snd (bnd m f w)) \<longrightarrow>
           trace (snd (bnd m f w)) = tr @ [Confirm p] \<and> fst (bnd m f w) = Inl UserAbort)"
  proof (cases r)
    case (Inl e)
    then have b: "bnd m f w = (Inl e, w1)" using mw by (simp add: bnd_def)
    have "trace w1 = tr @ [Confirm p] \<and> Inl e = (Inl UserAbort :: error + 'b)"
      if "declined_at c w tr p w1" for tr p
      using m1 [OF that] Inl by blast
    then show ?thesis unfolding b using p1 by simp
  next
    case (Inr x)
    then have b: "bnd m f w = f x w1" using mw by (simp add: bnd_def)
    have p2: "prefix (trace w1) (trace (snd (f x w1)))"
      using assms(2) [of x] unfolding halts_on_decline_def by blast
    have f2: "\<And>tr p. declined_at c w1 tr p (snd (f x w1)) \<Longrightarrow>
        trace (snd (f x w1)) = tr @ [Confirm p] \<and> fst (f x w1) = Inl UserAbort"
      using assms(2) [of x] unfolding halts_on_decline_def by blast
    have "trace (snd (f x w1)) = tr @ [Confirm p] \<and> fst (f x w1) = Inl UserAbort"
      if d: "declined_at c w tr p (snd (f x w1))" for tr p
    proof (cases "length (trace w1) \<le> length tr")
      case True
      then have "declined_at c w1 tr p (snd (f x w1))" using d by (simp add: declined_at_def)
      then show ?thesis by (rule f2)
    next
      case False
      have q: "prefix (tr @ [Confirm p]) (trace (snd (f x w1)))" using d by (simp add: declined_at_def)
      from prefix_same_cases [OF q p2] have "prefix (tr @ [Confirm p]) (trace w1)"
      proof
        assume "prefix (tr @ [Confirm p]) (trace w1)" then show ?thesis .
      next
        assume s: "prefix (trace w1) (tr @ [Confirm p])"
        then have "length (trace w1) \<le> length (tr @ [Confirm p])" by (rule prefix_length_le)
        then have "length (trace w1) = length (tr @ [Confirm p])" using False by simp
        then have "trace w1 = tr @ [Confirm p]" using s by (rule prefix_whole)
        then show ?thesis by simp
      qed
      then have "declined_at c w tr p w1" using d by (simp add: declined_at_def)
      then have "r = Inl UserAbort" using m1 by blast
      then show ?thesis using Inr by simp
    qed
    then have g: "\<forall>tr p. declined_at c w tr p (snd (f x w1)) \<longrightarrow>
        trace (snd (f x w1)) = tr @ [Confirm p] \<and> fst (f x w1) = Inl UserAbort"
      by blast
    have "prefix (trace w) (trace (snd (f x w1)))" using p1 p2 by (rule prefix_order.trans)
    then show ?thesis unfolding b using g by simp
  qed
qed


lemma hd_if: "halts_on_decline c m1 \<Longrightarrow> halts_on_decline c m2 \<Longrightarrow>
    halts_on_decline c (if b then m1 else m2)"
  by simp

lemma hd_call_psql: "halts_on_decline c (call_psql c' cmd)"
  unfolding call_psql_def Let_def
  by (intro hd_bnd hd_log hd_popen) (simp_all add: hd_raise hd_ret split: prod.splits)

lemma hd_get_pg_version: "halts_on_decline c (get_pg_version c')"
  unfolding get_pg_version_def
  by (intro hd_bnd hd_call_psql)
     (auto intro!: hd_raise hd_ret hd_bnd hd_log split: sum.splits prod.splits)

lemma hd_is_extension: "halts_on_decline c (is_extension c' name)"
  unfolding is_extension_def Let_def
  by (intro hd_bnd hd_log hd_os_path_exists)

lemma hd_find_loop: "halts_on_decline c (find_loop sharedir name sqlfile fns tried)"
proof (induction fns arbitrary: tried)
  case Nil
  show ?case by (simp add: hd_raise)
next
  case (Cons fn fns)
  show ?case
    by (simp add: Let_def Cons)
       (intro impI hd_bnd hd_log hd_os_path_exists, simp add: hd_ret Cons)
qed

lemma hd_find_sql_file: "halts_on_decline c (find_sql_file c' name sqlfile)"
  unfolding find_sql_file_def Let_def by (rule hd_find_loop)

lemma hd_load_sql: "halts_on_decline c (load_sql c' filename data)"
  unfolding load_sql_def Let_def
  by (intro hd_bnd)
     (auto intro!: hd_bnd hd_open_file hd_popen hd_raise hd_ret split: option.splits prod.splits)

lemma hd_Load_find: "halts_on_decline c (Load_find c name sqlfile)"
  unfolding Load_find_def Let_def
  by (intro hd_bnd hd_find_sql_file hd_if hd_confirm hd_ret)

lemma hd_Load_once: "halts_on_decline c (Load_once c fn)"
proof -
  have a: "halts_on_decline c (log INFO (AlreadyLoaded fn))" by (rule hd_log)
  have b: "halts_on_decline c (bnd (load_sql c (Some fn) None) (\<lambda>_. register_loaded fn))"
    by (intro hd_bnd hd_load_sql hd_register_loaded)
  show ?thesis
    using a b unfolding halts_on_decline_def Load_once_def by simp
qed

lemma hd_Load_sql_file: "halts_on_decline c (Load_sql_file c name sqlfile)"
  unfolding Load_sql_file_def by (intro hd_bnd hd_Load_find hd_Load_once)

lemma hd_Unload_sql_file: "halts_on_decline c (Unload_sql_file c name sqlfile)"
  unfolding Unload_sql_file_def by (intro hd_bnd hd_find_sql_file hd_confirm hd_load_sql)

lemma hd_Load_load_ext: "halts_on_decline c (Load_load_ext c name sqlfile)"
  unfolding Load_load_ext_def create_extension_def
  by (intro hd_bnd hd_log hd_if hd_get_pg_version hd_is_extension hd_load_sql hd_confirm
      hd_Load_sql_file)

lemma hd_Unload_load_ext: "halts_on_decline c (Unload_load_ext c name sqlfile)"
  unfolding Unload_load_ext_def drop_extension_def
  by (intro hd_bnd hd_log hd_if hd_get_pg_version hd_is_extension hd_load_sql hd_confirm
      hd_Unload_sql_file)

lemma hd_foreach:
  assumes "\<And>x. halts_on_decline c (f x)"
  shows "halts_on_decline c (foreach xs f)"
  by (induction xs) (simp_all add: hd_ret hd_bnd assms)

lemma hd_Load_run: "halts_on_decline c (Load_run c prov)"
  unfolding Load_run_def by (rule hd_foreach) (simp add: hd_Load_load_ext split: prod.splits)

lemma hd_Unload_run: "halts_on_decline c (Unload_run c prov)"
  unfolding Unload_run_def by (rule hd_foreach) (simp add: hd_Unload_load_ext split: prod.splits)


lemma bnd_assoc: "bnd (bnd m f) g = bnd m (\<lambda>x. bnd (f x) g)"
  by (rule ext) (simp add: bnd_def split: prod.splits sum.splits)

lemma bnd_ret: "bnd (ret x) f = f x"
  by (rule ext) (simp add: bnd_def ret_def)

lemma foreach_append: "foreach (xs @ ys) f = bnd (foreach xs f) (\<lambda>_. foreach ys f)"
  by (induction xs) (simp_all add: bnd_ret bnd_assoc)

lemma foreach_stops:
  assumes "foreach xs f w = (Inr (), w1)" "fst (f x w1) = Inl e"
  shows "foreach (xs @ x # ys) f w = f x w1"
proof -
  obtain w2 where "f x w1 = (Inl e, w2)" using assms(2) by (cases "f x w1") simp
  then show ?thesis using assms(1) by (simp add: foreach_append bnd_def)
qed

lemma halts_on_declineD:
  assumes "halts_on_decline c m" "prefix (tr @ [Confirm p]) (trace (snd (m w)))"
    "length (trace w) \<le> length tr" "\<not> answers c tr p"
  shows "trace (snd (m w)) = tr @ [Confirm p] \<and> fst (m w) = Inl UserAbort"
proof -
  have d: "declined_at c w tr p (snd (m w))"
    unfolding declined_at_def using assms(2,3,4) by blast
  have "\<forall>tr p. declined_at c w tr p (snd (m w)) \<longrightarrow>
           trace (snd (m w)) = tr @ [Confirm p] \<and> fst (m w) = Inl UserAbort"
    using assms(1) unfolding halts_on_decline_def by blast
  then show ?thesis using d by blast
qed

lemma Load_run_stops:
  assumes "Load_run c before w = (Inr (), w1)"
    "fst (Load_load_ext c name (map_of data ''file'') w1) = Inl e"
  shows "Load_run c (before @ (name, data) # rest) w = Load_load_ext c name (map_of data ''file'') w1"
proof -
  let ?f = "\<lambda>(name, data). Load_load_ext c name (map_of data ''file'')"
  have 1: "foreach before ?f w = (Inr (), w1)" using assms(1) by (simp add: Load_run_def)
  have 2: "fst (?f (name, data) w1) = Inl e" using assms(2) by simp
  have "foreach (before @ (name, data) # rest) ?f w = ?f (name, data) w1"
    using 1 2 by (rule foreach_stops)
  then show ?thesis by (simp add: Load_run_def)
qed

lemma Unload_run_stops:
  assumes "Unload_run c rest w = (Inr (), w1)"
    "fst (Unload_load_ext c name (map_of data ''file'') w1) = Inl e"
  shows "Unload_run c (before @ (name, data) # rest) w =
     Unload_load_ext c name (map_of data ''file'') w1"
proof -
  let ?f = "\<lambda>(name, data). Unload_load_ext c name (map_of data ''file'')"
  have 1: "foreach (rev rest) ?f w = (Inr (), w1)" using assms(1) by (simp add: Unload_run_def)
  have 2: "fst (?f (name, data) w1) = Inl e" using assms(2) by simp
  have "foreach (rev rest @ (name, data) # rev before) ?f w = ?f (name, data) w1"
    using 1 2 by (rule foreach_stops)
  then show ?thesis by (simp add: Unload_run_def)
qed

text \<open>
  C8, as amended. When the user declines a prompt (\<open>p\<close>, asked after the events \<open>tr\<close>)
  during an activation, the activation ends at that prompt with \<open>UserAbort\<close>; and when that
  happens during a \<^verbatim>\<open>load\<close> or \<^verbatim>\<open>unload\<close> run, the run ends at that prompt with
  \<open>UserAbort\<close> too: the prompt is the last event of the run. The loops catch nothing:
  when the objects before it have been processed without an exception and the activation
  of an object ends with \<open>UserAbort\<close>, the outcome and the world of the run are those of
  that activation, whatever objects remain (\<open>rest\<close> for \<^verbatim>\<open>load\<close>; \<open>before\<close> for
  \<^verbatim>\<open>unload\<close>, which goes through the mapping in reverse).
\<close>

theorem decline_ends_run:
  "(prefix (tr @ [Confirm p]) (trace (snd (Load_load_ext c name sql w)))
      \<and> length (trace w) \<le> length tr \<and> \<not> answers c tr p \<longrightarrow>
      trace (snd (Load_load_ext c name sql w)) = tr @ [Confirm p]
      \<and> fst (Load_load_ext c name sql w) = Inl UserAbort)
   \<and> (prefix (tr @ [Confirm p]) (trace (snd (Unload_load_ext c name sql w)))
      \<and> length (trace w) \<le> length tr \<and> \<not> answers c tr p \<longrightarrow>
      trace (snd (Unload_load_ext c name sql w)) = tr @ [Confirm p]
      \<and> fst (Unload_load_ext c name sql w) = Inl UserAbort)
   \<and> (prefix (tr @ [Confirm p]) (trace (snd (Load_run c prov w)))
      \<and> length (trace w) \<le> length tr \<and> \<not> answers c tr p \<longrightarrow>
      trace (snd (Load_run c prov w)) = tr @ [Confirm p]
      \<and> fst (Load_run c prov w) = Inl UserAbort)
   \<and> (prefix (tr @ [Confirm p]) (trace (snd (Unload_run c prov w)))
      \<and> length (trace w) \<le> length tr \<and> \<not> answers c tr p \<longrightarrow>
      trace (snd (Unload_run c prov w)) = tr @ [Confirm p]
      \<and> fst (Unload_run c prov w) = Inl UserAbort)
   \<and> (Load_run c before w = (Inr (), w1)
      \<and> fst (Load_load_ext c name (map_of data ''file'') w1) = Inl UserAbort \<longrightarrow>
      Load_run c (before @ (name, data) # rest) w = Load_load_ext c name (map_of data ''file'') w1)
   \<and> (Unload_run c rest w = (Inr (), w1)
      \<and> fst (Unload_load_ext c name (map_of data ''file'') w1) = Inl UserAbort \<longrightarrow>
      Unload_run c (before @ (name, data) # rest) w = Unload_load_ext c name (map_of data ''file'') w1)"
proof (intro conjI impI)
  assume a: "prefix (tr @ [Confirm p]) (trace (snd (Load_load_ext c name sql w)))
      \<and> length (trace w) \<le> length tr \<and> \<not> answers c tr p"
  have "trace (snd (Load_load_ext c name sql w)) = tr @ [Confirm p]
      \<and> fst (Load_load_ext c name sql w) = Inl UserAbort"
    by (rule halts_on_declineD [OF hd_Load_load_ext]) (use a in blast)+
  then show "trace (snd (Load_load_ext c name sql w)) = tr @ [Confirm p]"
    "fst (Load_load_ext c name sql w) = Inl UserAbort" by blast+
next
  assume a: "prefix (tr @ [Confirm p]) (trace (snd (Unload_load_ext c name sql w)))
      \<and> length (trace w) \<le> length tr \<and> \<not> answers c tr p"
  have "trace (snd (Unload_load_ext c name sql w)) = tr @ [Confirm p]
      \<and> fst (Unload_load_ext c name sql w) = Inl UserAbort"
    by (rule halts_on_declineD [OF hd_Unload_load_ext]) (use a in blast)+
  then show "trace (snd (Unload_load_ext c name sql w)) = tr @ [Confirm p]"
    "fst (Unload_load_ext c name sql w) = Inl UserAbort" by blast+
next
  assume a: "prefix (tr @ [Confirm p]) (trace (snd (Load_run c prov w)))
      \<and> length (trace w) \<le> length tr \<and> \<not> answers c tr p"
  have "trace (snd (Load_run c prov w)) = tr @ [Confirm p]
      \<and> fst (Load_run c prov w) = Inl UserAbort"
    by (rule halts_on_declineD [OF hd_Load_run]) (use a in blast)+
  then show "trace (snd (Load_run c prov w)) = tr @ [Confirm p]"
    "fst (Load_run c prov w) = Inl UserAbort" by blast+
next
  assume a: "prefix (tr @ [Confirm p]) (trace (snd (Unload_run c prov w)))
      \<and> length (trace w) \<le> length tr \<and> \<not> answers c tr p"
  have "trace (snd (Unload_run c prov w)) = tr @ [Confirm p]
      \<and> fst (Unload_run c prov w) = Inl UserAbort"
    by (rule halts_on_declineD [OF hd_Unload_run]) (use a in blast)+
  then show "trace (snd (Unload_run c prov w)) = tr @ [Confirm p]"
    "fst (Unload_run c prov w) = Inl UserAbort" by blast+
next
  assume a: "Load_run c before w = (Inr (), w1)
      \<and> fst (Load_load_ext c name (map_of data ''file'') w1) = Inl UserAbort"
  show "Load_run c (before @ (name, data) # rest) w = Load_load_ext c name (map_of data ''file'') w1"
    by (rule Load_run_stops) (use a in blast)+
next
  assume a: "Unload_run c rest w = (Inr (), w1)
      \<and> fst (Unload_load_ext c name (map_of data ''file'') w1) = Inl UserAbort"
  show "Unload_run c (before @ (name, data) # rest) w =
      Unload_load_ext c name (map_of data ''file'') w1"
    by (rule Unload_run_stops) (use a in blast)+
qed

theorem decline_ends_run_witness:
  "trace (snd (Load_run declining_ctx foo_bar (demo_world []))) =
     [Popen [''/pg/bindir/psql'', ''-tA'', ''-c'', ''SELECT version();''] None NoStdin,
      Confirm (NoControlFileLoad ''foo'')]
   \<and> fst (Load_run declining_ctx foo_bar (demo_world [])) = Inl UserAbort
   \<and> Load_run declining_ctx foo_bar (demo_world []) =
       Load_load_ext declining_ctx ''foo'' None (demo_world [])"
  using decline_ends_run [where c = declining_ctx and prov = foo_bar and w = "demo_world []"
      and tr = "[Popen [''/pg/bindir/psql'', ''-tA'', ''-c'', ''SELECT version();''] None NoStdin]"
      and p = "NoControlFileLoad ''foo''" and name = "''foo''" and sql = None
      and before = "[]" and data = "[]" and rest = "[(''bar'', [(''file'', ''bar.sql'')])]"
      and ?w1.0 = "demo_world []"]
  by (simp add: load_defs action_defs Let_def declining_ctx_def demo_ctx_def demo_world_def
      foo_bar_def parse_92)

text \<open>
  C8 as it is worded fails: \<^verbatim>\<open>unload\<close> of the two objects with a user who declines, on a
  9.2.0 server with no control file, asks about \<open>bar\<close> (the last object, processed first)
  and ends with \<open>UserAbort\<close>; the activation of \<open>foo\<close> is never begun.
\<close>

theorem unload_declined_stops:
  "fst (Unload_run declining_ctx foo_bar (demo_world [])) = Inl UserAbort
   \<and> trace (snd (Unload_run declining_ctx foo_bar (demo_world []))) =
     [Popen [''/pg/bindir/psql'', ''-tA'', ''-c'', ''SELECT version();''] None NoStdin,
      Confirm (NoControlFileUnload ''bar'')]
   \<and> activations (snd (Unload_run declining_ctx foo_bar (demo_world []))) =
     [(Unloading, ''bar'', Some ''bar.sql'')]
   \<and> (Unloading, ''foo'', None) \<notin>
       set (activations (snd (Unload_run declining_ctx foo_bar (demo_world []))))"
  by (simp add: load_defs action_defs Let_def declining_ctx_def demo_ctx_def demo_world_def
      foo_bar_def parse_92 activations_def List.map_filter_def)

end
